theory Spec2Isabelle
  imports Complex_Main "HOL-Library.Sublist"
begin

section \<open>Strings as the Python code uses them\<close>

text \<open>
  A Python \<open>str\<close> is modelled as a \<open>string\<close> (a list of 8-bit characters), read as
  the UTF-8 bytes of the text. The model is exact on ASCII text. The Chinese keywords of
  the keyword table are uncased and contain no whitespace, so they are written as their
  UTF-8 bytes; substring search on UTF-8 bytes agrees with substring search on code
  points. Case mapping and whitespace of cased or blank characters outside ASCII are not
  modelled: such bytes are kept as they are and are never whitespace.
\<close>

definition lower_char :: "char \<Rightarrow> char" where
  "lower_char c =
     (case map_of (zip ''ABCDEFGHIJKLMNOPQRSTUVWXYZ'' ''abcdefghijklmnopqrstuvwxyz'') c of
        Some d \<Rightarrow> d
      | None \<Rightarrow> c)"

text \<open>\<open>s.lower()\<close>\<close>

definition lower :: "string \<Rightarrow> string" where
  "lower s = map lower_char s"

text \<open>
  The characters Python's \<open>str.isspace\<close>, \<open>str.strip\<close>, \<open>str.split\<close> and the
  regular expression \<open>\s\<close> take for whitespace, below 128: tab, line feed, vertical tab,
  form feed, carriage return, the four separators 0x1C to 0x1F, and the space.
\<close>

definition is_space :: "char \<Rightarrow> bool" where
  "is_space c \<longleftrightarrow>
     c \<in> set [CHR 0x09, CHR 0x0A, CHR 0x0B, CHR 0x0C, CHR 0x0D,
               CHR 0x1C, CHR 0x1D, CHR 0x1E, CHR 0x1F, CHR '' '']"

text \<open>\<open>s.strip()\<close>\<close>

definition strip :: "string \<Rightarrow> string" where
  "strip s = rev (dropWhile is_space (rev (dropWhile is_space s)))"

text \<open>\<open>s.split()\<close>: the maximal runs of non-whitespace characters, in order.\<close>

fun split_from :: "string \<Rightarrow> string \<Rightarrow> string list" where
  "split_from cur [] = (if cur = [] then [] else [cur])"
| "split_from cur (c # cs) =
     (if is_space c then (if cur = [] then [] else [cur]) @ split_from [] cs
      else split_from (cur @ [c]) cs)"

definition split :: "string \<Rightarrow> string list" where
  "split s = split_from [] s"

text \<open>\<open>kw in s\<close> on strings: \<open>kw\<close> occurs in \<open>s\<close> as a contiguous substring.\<close>

fun contains :: "string \<Rightarrow> string \<Rightarrow> bool" where
  "contains kw [] = (kw = [])"
| "contains kw (c # cs) = (prefix kw (c # cs) \<or> contains kw cs)"

text \<open>\<open>s.startswith((p1, ..., pn))\<close>\<close>

definition startswith_any :: "string \<Rightarrow> string list \<Rightarrow> bool" where
  "startswith_any s ps = list_ex (\<lambda>p. prefix p s) ps"

section \<open>normalize.py\<close>

text \<open>
  The alternation of the first \<open>re.sub\<close> of \<open>normalize_name\<close>, in the order the
  pattern lists it: at each position the regular expression engine takes the first
  alternative that matches.
\<close>

definition degree_tokens :: "string list" where
  "degree_tokens =
     [''msc'', ''ms'', ''ma'', ''meng'', ''beng'', ''phd'', ''mres'', ''programme'', ''program'']"

text \<open>
  \<open>re.sub(r"(msc|ms|ma|meng|beng|phd|mres|programme|program)", "", s)\<close>: scanning from
  the left, an occurrence of an alternative is deleted and the scan goes on behind it;
  a character where no alternative starts is kept. The pattern has no word-boundary
  anchors.
\<close>

function remove_tokens :: "string \<Rightarrow> string" where
  "remove_tokens [] = []"
| "remove_tokens (c # cs) =
     (case find (\<lambda>t. prefix t (c # cs)) degree_tokens of
        Some t \<Rightarrow> remove_tokens (drop (length t) (c # cs))
      | None \<Rightarrow> c # remove_tokens cs)"
  by pat_completeness auto
termination
proof (relation "measure length")
  show "wf (measure length)" by simp
next
  fix c cs t
  assume "find (\<lambda>t. prefix t (c # cs)) degree_tokens = Some t"
  then have "t \<in> set degree_tokens"
    by (auto simp: find_Some_iff)
  then have "t \<noteq> []"
    by (auto simp: degree_tokens_def)
  then show "(drop (length t) (c # cs), c # cs) \<in> measure length"
    by (cases t) auto
next
  fix c :: char and cs :: string
  show "(cs, c # cs) \<in> measure length" by simp
qed

text \<open>\<open>re.sub(r"[\(\)\[\]{}:;/\-]", " ", s)\<close>\<close>

definition replace_special :: "string \<Rightarrow> string" where
  "replace_special s = map (\<lambda>c. if c \<in> set ''()[]{}:;/-'' then CHR '' '' else c) s"

text \<open>\<open>re.sub(r"\s+", " ", s)\<close>: every maximal run of whitespace becomes one space.\<close>

function collapse_spaces :: "string \<Rightarrow> string" where
  "collapse_spaces [] = []"
| "collapse_spaces (c # cs) =
     (if is_space c then CHR '' '' # collapse_spaces (dropWhile is_space cs)
      else c # collapse_spaces cs)"
  by pat_completeness auto
termination
  by (relation "measure length") (auto simp: length_dropWhile_le less_Suc_eq_le)

definition normalize_name :: "string \<Rightarrow> string" where
  "normalize_name name =
     (if name = [] then []
      else strip (collapse_spaces (replace_special (remove_tokens (lower name)))))"

section \<open>fuzzy\_match.py\<close>

text \<open>
  \<open>fuzz.partial_ratio\<close> belongs to the rapidfuzz library and is a parameter \<open>pr\<close> of
  the model: a score between 0 and 100. Its value is only compared with the threshold.
\<close>

definition fuzzy_similarity :: "(string \<Rightarrow> string \<Rightarrow> rat) \<Rightarrow> string \<Rightarrow> string \<Rightarrow> rat" where
  "fuzzy_similarity pr a b = (if a = [] \<or> b = [] then 0 else pr (lower a) (lower b))"

definition is_fuzzy_match :: "(string \<Rightarrow> string \<Rightarrow> rat) \<Rightarrow> string \<Rightarrow> string \<Rightarrow> rat \<Rightarrow> bool" where
  "is_fuzzy_match pr a b threshold \<longleftrightarrow> fuzzy_similarity pr a b \<ge> threshold"

section \<open>keyword\_match.py\<close>

text \<open>
  The dictionary \<open>MAJOR_KEYWORDS\<close>, as an association list in the order the source
  writes its keys (a Python dictionary iterates in insertion order). The keywords written
  in Chinese are given as their UTF-8 bytes.
\<close>

definition MAJOR_KEYWORDS :: "(string \<times> string list) list" where
  "MAJOR_KEYWORDS =
     [(''computer_science'',
        [''computer'', ''computing'', ''software'', ''programming'', ''code'',
         ''artificial intelligence'', ''ai'', ''machine learning'', ''ml'', ''deep learning'',
         ''neural'', ''data'', ''data science'', ''database'', ''big data'', ''algorithm'',
         ''theory'', ''information'', ''information system'', ''cyber'', ''security'',
         [CHR 0xE7, CHR 0xBD, CHR 0x91, CHR 0xE7, CHR 0xBB, CHR 0x9C, CHR 0xE5, CHR 0xAE, CHR 0x89, CHR 0xE5, CHR 0x85, CHR 0xA8],
         [CHR 0xE6, CHR 0x9C, CHR 0xBA, CHR 0xE5, CHR 0x99, CHR 0xA8, CHR 0xE4, CHR 0xBA, CHR 0xBA],
         [CHR 0xE4, CHR 0xBA, CHR 0xBA, CHR 0xE5, CHR 0xB7, CHR 0xA5, CHR 0xE6, CHR 0x99, CHR 0xBA, CHR 0xE8, CHR 0x83, CHR 0xBD],
         [CHR 0xE6, CHR 0x9C, CHR 0xBA, CHR 0xE5, CHR 0x99, CHR 0xA8, CHR 0xE5, CHR 0xAD, CHR 0xA6, CHR 0xE4, CHR 0xB9, CHR 0xA0],
         [CHR 0xE6, CHR 0xB7, CHR 0xB1, CHR 0xE5, CHR 0xBA, CHR 0xA6, CHR 0xE5, CHR 0xAD, CHR 0xA6, CHR 0xE4, CHR 0xB9, CHR 0xA0],
         [CHR 0xE8, CHR 0xAE, CHR 0xA1, CHR 0xE7, CHR 0xAE, CHR 0x97, CHR 0xE6, CHR 0x9C, CHR 0xBA],
         [CHR 0xE8, CHR 0xBD, CHR 0xAF, CHR 0xE4, CHR 0xBB, CHR 0xB6],
         [CHR 0xE7, CHR 0xBC, CHR 0x96, CHR 0xE7, CHR 0xA8, CHR 0x8B],
         [CHR 0xE7, CHR 0xAE, CHR 0x97, CHR 0xE6, CHR 0xB3, CHR 0x95]]),
      (''civil_engineering'',
        [''civil'', ''structural'', ''infrastructure'', ''geotechnical'', ''transportation'',
         ''bridge'', ''hydraulic'', ''construction'',
         [CHR 0xE5, CHR 0x9C, CHR 0x9F, CHR 0xE6, CHR 0x9C, CHR 0xA8],
         [CHR 0xE7, CHR 0xBB, CHR 0x93, CHR 0xE6, CHR 0x9E, CHR 0x84],
         [CHR 0xE5, CHR 0xB2, CHR 0xA9, CHR 0xE5, CHR 0x9C, CHR 0x9F],
         [CHR 0xE4, CHR 0xBA, CHR 0xA4, CHR 0xE9, CHR 0x80, CHR 0x9A],
         [CHR 0xE6, CHR 0xA1, CHR 0xA5, CHR 0xE6, CHR 0xA2, CHR 0x81],
         [CHR 0xE6, CHR 0x96, CHR 0xBD, CHR 0xE5, CHR 0xB7, CHR 0xA5],
         [CHR 0xE6, CHR 0xB0, CHR 0xB4, CHR 0xE5, CHR 0x88, CHR 0xA9],
         [CHR 0xE5, CHR 0xB8, CHR 0x82, CHR 0xE6, CHR 0x94, CHR 0xBF]]),
      (''chemical_engineering'',
        [''chemical'', ''chemistry'', ''process'', ''reaction'', ''polymer'', ''bioprocess'',
         ''energy'', ''catalysis'', [CHR 0xE5, CHR 0x8C, CHR 0x96, CHR 0xE5, CHR 0xB7, CHR 0xA5],
         [CHR 0xE5, CHR 0x8C, CHR 0x96, CHR 0xE5, CHR 0xAD, CHR 0xA6],
         [CHR 0xE8, CHR 0xBF, CHR 0x87, CHR 0xE7, CHR 0xA8, CHR 0x8B],
         [CHR 0xE5, CHR 0x8F, CHR 0x8D, CHR 0xE5, CHR 0xBA, CHR 0x94],
         [CHR 0xE5, CHR 0x82, CHR 0xAC, CHR 0xE5, CHR 0x8C, CHR 0x96],
         [CHR 0xE8, CHR 0x81, CHR 0x9A, CHR 0xE5, CHR 0x90, CHR 0x88, CHR 0xE7, CHR 0x89, CHR 0xA9]]),
      (''materials_science'',
        [''materials'', ''composite'', ''composites'', ''nano'', ''nanomaterials'', ''polymer'',
         ''metallurgy'', ''biomaterials'',
         [CHR 0xE6, CHR 0x9D, CHR 0x90, CHR 0xE6, CHR 0x96, CHR 0x99],
         [CHR 0xE5, CHR 0xA4, CHR 0x8D, CHR 0xE5, CHR 0x90, CHR 0x88, CHR 0xE6, CHR 0x9D, CHR 0x90, CHR 0xE6, CHR 0x96, CHR 0x99],
         [CHR 0xE9, CHR 0x87, CHR 0x91, CHR 0xE5, CHR 0xB1, CHR 0x9E],
         [CHR 0xE7, CHR 0xBA, CHR 0xB3, CHR 0xE7, CHR 0xB1, CHR 0xB3],
         [CHR 0xE9, CHR 0xAB, CHR 0x98, CHR 0xE5, CHR 0x88, CHR 0x86, CHR 0xE5, CHR 0xAD, CHR 0x90]]),
      (''mechanical_engineering'',
        [''mechanical'', ''mechatronics'', ''robotics'', ''manufacturing'', ''dynamics'',
         ''thermo'', ''fluid'', [CHR 0xE6, CHR 0x9C, CHR 0xBA, CHR 0xE6, CHR 0xA2, CHR 0xB0],
         [CHR 0xE6, CHR 0x9C, CHR 0xBA, CHR 0xE7, CHR 0x94, CHR 0xB5],
         [CHR 0xE5, CHR 0x8A, CHR 0xA8, CHR 0xE5, CHR 0x8A, CHR 0x9B],
         [CHR 0xE6, CHR 0xB5, CHR 0x81, CHR 0xE4, CHR 0xBD, CHR 0x93],
         [CHR 0xE7, CHR 0x83, CHR 0xAD, CHR 0xE8, CHR 0x83, CHR 0xBD],
         [CHR 0xE5, CHR 0x88, CHR 0xB6, CHR 0xE9, CHR 0x80, CHR 0xA0],
         [CHR 0xE6, CHR 0x9C, CHR 0xBA, CHR 0xE5, CHR 0x99, CHR 0xA8, CHR 0xE4, CHR 0xBA, CHR 0xBA]]),
      (''electrical_engineering'',
        [''electrical'', ''electronics'', ''signal'', ''communication'', ''power'',
         ''semiconductor'', [CHR 0xE7, CHR 0x94, CHR 0xB5, CHR 0xE6, CHR 0xB0, CHR 0x94],
         [CHR 0xE7, CHR 0x94, CHR 0xB5, CHR 0xE5, CHR 0xAD, CHR 0x90],
         [CHR 0xE4, CHR 0xBF, CHR 0xA1, CHR 0xE5, CHR 0x8F, CHR 0xB7],
         [CHR 0xE9, CHR 0x80, CHR 0x9A, CHR 0xE4, CHR 0xBF, CHR 0xA1],
         [CHR 0xE5, CHR 0x8D, CHR 0x8A, CHR 0xE5, CHR 0xAF, CHR 0xBC, CHR 0xE4, CHR 0xBD, CHR 0x93],
         [CHR 0xE7, CHR 0x94, CHR 0xB5, CHR 0xE5, CHR 0x8A, CHR 0x9B]]),
      (''biomedical_engineering'',
        [''biomedical'', ''bioengineering'', ''medical'', ''healthcare'', ''neuro'',
         ''neuroscience'',
         [CHR 0xE7, CHR 0x94, CHR 0x9F, CHR 0xE7, CHR 0x89, CHR 0xA9, CHR 0xE5, CHR 0x8C, CHR 0xBB, CHR 0xE5, CHR 0xAD, CHR 0xA6],
         [CHR 0xE5, CHR 0x8C, CHR 0xBB, CHR 0xE5, CHR 0xB7, CHR 0xA5],
         [CHR 0xE5, CHR 0x8C, CHR 0xBB, CHR 0xE7, CHR 0x96, CHR 0x97],
         [CHR 0xE7, CHR 0xA5, CHR 0x9E, CHR 0xE7, CHR 0xBB, CHR 0x8F],
         [CHR 0xE7, CHR 0x94, CHR 0x9F, CHR 0xE7, CHR 0x89, CHR 0xA9, CHR 0xE5, CHR 0xB7, CHR 0xA5, CHR 0xE7, CHR 0xA8, CHR 0x8B]]),
      (''environmental_engineering'',
        [''environment'', ''environmental'', ''sustainability'', ''ecology'', ''climate'',
         ''carbon'', [CHR 0xE7, CHR 0x8E, CHR 0xAF, CHR 0xE5, CHR 0xA2, CHR 0x83],
         [CHR 0xE7, CHR 0x94, CHR 0x9F, CHR 0xE6, CHR 0x80, CHR 0x81],
         [CHR 0xE5, CHR 0x8F, CHR 0xAF, CHR 0xE6, CHR 0x8C, CHR 0x81, CHR 0xE7, CHR 0xBB, CHR 0xAD],
         [CHR 0xE7, CHR 0xA2, CHR 0xB3, CHR 0xE6, CHR 0x8E, CHR 0x92, CHR 0xE6, CHR 0x94, CHR 0xBE],
         [CHR 0xE6, CHR 0xB0, CHR 0x94, CHR 0xE5, CHR 0x80, CHR 0x99]]),
      (''energy_engineering'',
        [''energy'', ''renewable'', ''nuclear'', ''power systems'', ''hydrogen'', ''battery'',
         [CHR 0xE8, CHR 0x83, CHR 0xBD, CHR 0xE6, CHR 0xBA, CHR 0x90],
         [CHR 0xE5, CHR 0x8F, CHR 0xAF, CHR 0xE5, CHR 0x86, CHR 0x8D, CHR 0xE7, CHR 0x94, CHR 0x9F],
         [CHR 0xE6, CHR 0xA0, CHR 0xB8, CHR 0xE8, CHR 0x83, CHR 0xBD],
         [CHR 0xE7, CHR 0x94, CHR 0xB5, CHR 0xE5, CHR 0x8A, CHR 0x9B, CHR 0xE7, CHR 0xB3, CHR 0xBB, CHR 0xE7, CHR 0xBB, CHR 0x9F],
         [CHR 0xE5, CHR 0x82, CHR 0xA8, CHR 0xE8, CHR 0x83, CHR 0xBD],
         [CHR 0xE7, CHR 0x94, CHR 0xB5, CHR 0xE6, CHR 0xB1, CHR 0xA0]]),
      (''finance'',
        [''finance'', ''financial'', ''investment'', ''market'', ''fintech'', ''quant'',
         ''risk'', ''wealth'', [CHR 0xE9, CHR 0x87, CHR 0x91, CHR 0xE8, CHR 0x9E, CHR 0x8D],
         [CHR 0xE6, CHR 0x8A, CHR 0x95, CHR 0xE8, CHR 0xB5, CHR 0x84],
         [CHR 0xE9, CHR 0x87, CHR 0x8F, CHR 0xE5, CHR 0x8C, CHR 0x96],
         [CHR 0xE9, CHR 0xA3, CHR 0x8E, CHR 0xE9, CHR 0x99, CHR 0xA9],
         [CHR 0xE8, CHR 0xB4, CHR 0xA2, CHR 0xE5, CHR 0xAF, CHR 0x8C],
         [CHR 0xE8, CHR 0xB5, CHR 0x84, CHR 0xE4, CHR 0xBA, CHR 0xA7]]),
      (''management'',
        [''management'', ''business'', ''strategy'', ''consulting'', ''marketing'', ''hr'',
         ''supply chain'', ''operations'',
         [CHR 0xE5, CHR 0x95, CHR 0x86, CHR 0xE4, CHR 0xB8, CHR 0x9A],
         [CHR 0xE7, CHR 0xAE, CHR 0xA1, CHR 0xE7, CHR 0x90, CHR 0x86],
         [CHR 0xE8, CHR 0xBF, CHR 0x90, CHR 0xE8, CHR 0x90, CHR 0xA5],
         [CHR 0xE4, CHR 0xBE, CHR 0x9B, CHR 0xE5, CHR 0xBA, CHR 0x94, CHR 0xE9, CHR 0x93, CHR 0xBE],
         [CHR 0xE5, CHR 0xB8, CHR 0x82, CHR 0xE5, CHR 0x9C, CHR 0xBA],
         [CHR 0xE6, CHR 0x88, CHR 0x98, CHR 0xE7, CHR 0x95, CHR 0xA5],
         [CHR 0xE5, CHR 0x92, CHR 0xA8, CHR 0xE8, CHR 0xAF, CHR 0xA2]]),
      (''data_science'',
        [''data science'', ''data analytics'', ''statistics'', ''machine learning'', ''AI'',
         ''big data'',
         [CHR 0xE6, CHR 0x95, CHR 0xB0, CHR 0xE6, CHR 0x8D, CHR 0xAE, CHR 0xE7, CHR 0xA7, CHR 0x91, CHR 0xE5, CHR 0xAD, CHR 0xA6],
         [CHR 0xE6, CHR 0x95, CHR 0xB0, CHR 0xE6, CHR 0x8D, CHR 0xAE, CHR 0xE5, CHR 0x88, CHR 0x86, CHR 0xE6, CHR 0x9E, CHR 0x90],
         [CHR 0xE7, CHR 0xBB, CHR 0x9F, CHR 0xE8, CHR 0xAE, CHR 0xA1],
         [CHR 0xE4, CHR 0xBA, CHR 0xBA, CHR 0xE5, CHR 0xB7, CHR 0xA5, CHR 0xE6, CHR 0x99, CHR 0xBA, CHR 0xE8, CHR 0x83, CHR 0xBD]]),
      (''mathematics'',
        [''mathematics'', ''applied math'', ''statistics'', ''algebra'', ''calculus'',
         ''probability'', [CHR 0xE6, CHR 0x95, CHR 0xB0, CHR 0xE5, CHR 0xAD, CHR 0xA6],
         [CHR 0xE5, CHR 0xBA, CHR 0x94, CHR 0xE7, CHR 0x94, CHR 0xA8, CHR 0xE6, CHR 0x95, CHR 0xB0, CHR 0xE5, CHR 0xAD, CHR 0xA6],
         [CHR 0xE7, CHR 0xBB, CHR 0x9F, CHR 0xE8, CHR 0xAE, CHR 0xA1]]),
      (''communications_engineering'',
        [''communications'', ''signal processing'', ''wireless'', ''antenna'', ''5g'',
         [CHR 0xE9, CHR 0x80, CHR 0x9A, CHR 0xE4, CHR 0xBF, CHR 0xA1],
         [CHR 0xE4, CHR 0xBF, CHR 0xA1, CHR 0xE5, CHR 0x8F, CHR 0xB7, CHR 0xE5, CHR 0xA4, CHR 0x84, CHR 0xE7, CHR 0x90, CHR 0x86],
         [CHR 0xE6, CHR 0x97, CHR 0xA0, CHR 0xE7, CHR 0xBA, CHR 0xBF]]),
      (''life_science'',
        [''biology'', ''biotech'', ''biomedical'',
         [CHR 0xE7, CHR 0x94, CHR 0x9F, CHR 0xE5, CHR 0x91, CHR 0xBD, CHR 0xE7, CHR 0xA7, CHR 0x91, CHR 0xE5, CHR 0xAD, CHR 0xA6],
         [CHR 0xE7, CHR 0x94, CHR 0x9F, CHR 0xE7, CHR 0x89, CHR 0xA9],
         [CHR 0xE7, CHR 0x94, CHR 0x9F, CHR 0xE7, CHR 0x89, CHR 0xA9, CHR 0xE6, CHR 0x8A, CHR 0x80, CHR 0xE6, CHR 0x9C, CHR 0xAF]])]"

text \<open>
  \<open>keyword_overlap_score\<close>: the number of keywords that occur in the lower-cased text,
  divided by the number of keywords. The source computes the quotient in floating point;
  the model keeps the exact rational. Correctly rounded division is monotone, and two
  different quotients of list lengths below \<open>2 ^ 26\<close> differ by more than the rounding
  error, so every comparison the code makes on scores (with \<open>0.3\<close>, with \<open>0.0\<close>, with
  another score) has the outcome the rational comparison has.
\<close>

definition hits :: "string \<Rightarrow> string list \<Rightarrow> nat" where
  "hits name_lower keywords = length (filter (\<lambda>kw. contains (lower kw) name_lower) keywords)"

definition keyword_overlap_score :: "string \<Rightarrow> string list \<Rightarrow> rat" where
  "keyword_overlap_score name keywords =
     (if name = [] \<or> keywords = [] then 0
      else of_nat (hits (lower name) keywords) / of_nat (length keywords))"

section \<open>llm\_match.py\<close>

text \<open>
  The chat completion is an external service and a parameter \<open>llm\<close> of the model: for
  the two names of the prompt it gives the text of the reply, or \<open>None\<close> when the
  call raises. \<open>llm_semantic_match\<close> catches every exception and answers \<open>False\<close>.
\<close>

definition llm_semantic_match ::
    "(string \<Rightarrow> string \<Rightarrow> string option) \<Rightarrow> string \<Rightarrow> string \<Rightarrow> bool" where
  "llm_semantic_match llm a b =
     (if a = [] \<or> b = [] then False
      else (case llm a b of
              None \<Rightarrow> False
            | Some content \<Rightarrow> lower (strip content) = ''yes''))"

section \<open>canonical\_mapper.py\<close>

text \<open>
  A row of the table \<open>canonical_programs\<close>, a Python dictionary read with \<open>get\<close>: a key
  that is missing or holds \<open>None\<close> is \<open>None\<close> here.
\<close>

record canonical_program =
  cp_id :: "int option"
  canonical_program_name_en :: "string option"
  cp_keywords :: "string list option"

text \<open>\<open>c.get("canonical_program_name_en") or ""\<close>\<close>

definition canonical_name :: "canonical_program \<Rightarrow> string" where
  "canonical_name c = (case canonical_program_name_en c of None \<Rightarrow> [] | Some n \<Rightarrow> n)"

text \<open>The conditions of the four loops of \<open>map_to_canonical\<close>, one per stage
  (\<open>nrm\<close> is the source's variable \<open>norm\<close>).\<close>

definition exact_accepts :: "string \<Rightarrow> canonical_program \<Rightarrow> bool" where
  "exact_accepts nrm c \<longleftrightarrow> normalize_name (canonical_name c) = nrm"

definition fuzzy_accepts :: "(string \<Rightarrow> string \<Rightarrow> rat) \<Rightarrow> string \<Rightarrow> canonical_program \<Rightarrow> bool" where
  "fuzzy_accepts pr nrm c \<longleftrightarrow> is_fuzzy_match pr nrm (normalize_name (canonical_name c)) 85"

definition keyword_accepts :: "string \<Rightarrow> canonical_program \<Rightarrow> bool" where
  "keyword_accepts nrm c \<longleftrightarrow>
     (case cp_keywords c of
        None \<Rightarrow> False
      | Some kws \<Rightarrow> kws \<noteq> [] \<and> keyword_overlap_score nrm kws \<ge> 3 / 10)"

definition semantic_accepts ::
    "(string \<Rightarrow> string \<Rightarrow> string option) \<Rightarrow> string \<Rightarrow> canonical_program \<Rightarrow> bool" where
  "semantic_accepts llm program_name c \<longleftrightarrow> llm_semantic_match llm program_name (canonical_name c)"

text \<open>
  \<open>for c in canonical_list: if cond(c): return c.get("id")\<close>: the id of the first row that
  satisfies the condition, when there is one.
\<close>

fun first_id :: "(canonical_program \<Rightarrow> bool) \<Rightarrow> canonical_program list \<Rightarrow> int option option" where
  "first_id cond [] = None"
| "first_id cond (c # cs) = (if cond c then Some (cp_id c) else first_id cond cs)"

definition map_to_canonical ::
    "(string \<Rightarrow> string \<Rightarrow> rat) \<Rightarrow> (string \<Rightarrow> string \<Rightarrow> string option) \<Rightarrow>
     string \<Rightarrow> canonical_program list \<Rightarrow> int option" where
  "map_to_canonical pr llm program_name canonical_list =
     (if program_name = [] \<or> canonical_list = [] then None
      else
        let nrm = normalize_name program_name in
        case first_id (exact_accepts nrm) canonical_list of
          Some i \<Rightarrow> i
        | None \<Rightarrow>
        (case first_id (fuzzy_accepts pr nrm) canonical_list of
          Some i \<Rightarrow> i
        | None \<Rightarrow>
        (case first_id (keyword_accepts nrm) canonical_list of
          Some i \<Rightarrow> i
        | None \<Rightarrow>
        (case first_id (semantic_accepts llm program_name) canonical_list of
          Some i \<Rightarrow> i
        | None \<Rightarrow> None))))"

section \<open>category\_classifier.py\<close>

text \<open>
  The loop of \<open>classify_category\<close> over the items of the keyword table, with its two
  variables \<open>best_category\<close> and \<open>best_score\<close>.
\<close>

fun classify_loop ::
    "string \<Rightarrow> (string \<times> string list) list \<Rightarrow> string option \<times> rat \<Rightarrow> string option \<times> rat" where
  "classify_loop text [] best = best"
| "classify_loop text ((cat, kw_list) # rest) (best_category, best_score) =
     (let score = keyword_overlap_score text kw_list in
      if score > best_score then classify_loop text rest (Some cat, score)
      else classify_loop text rest (best_category, best_score))"

definition classify_with ::
    "(string \<times> string list) list \<Rightarrow> string \<Rightarrow> string \<Rightarrow> string" where
  "classify_with table program_name requirements =
     (let text = lower (program_name @ '' '' @ requirements) in
      if strip text = [] then ''other''
      else (case fst (classify_loop text table (None, 0)) of
              None \<Rightarrow> ''other''
            | Some cat \<Rightarrow> cat))"

definition classify_category :: "string \<Rightarrow> string \<Rightarrow> string" where
  "classify_category program_name requirements =
     classify_with MAJOR_KEYWORDS program_name requirements"

text \<open>
  The four acceptance conditions for a raw name, in the order \<open>map_to_canonical\<close> runs
  its loops: stage 0 exact, 1 fuzzy, 2 keyword, 3 semantic.
\<close>

definition matcher_stages ::
    "(string \<Rightarrow> string \<Rightarrow> rat) \<Rightarrow> (string \<Rightarrow> string \<Rightarrow> string option) \<Rightarrow> string \<Rightarrow>
     (canonical_program \<Rightarrow> bool) list" where
  "matcher_stages pr llm program_name =
     [exact_accepts (normalize_name program_name),
      fuzzy_accepts pr (normalize_name program_name),
      keyword_accepts (normalize_name program_name),
      semantic_accepts llm program_name]"

section \<open>run\_pipeline.py\<close>

subsection \<open>Stores\<close>

text \<open>
  The three source tables. A row is a Python dictionary read with \<open>get\<close>; \<open>row_name\<close>
  is the column the loop of the table reads the raw name from (\<open>program_en_name\<close> in
  \<open>programs\<close>, \<open>program_name\<close> in \<open>ic_program_stats\<close>, \<open>applied_program\<close> in
  \<open>cases\<close>); \<open>row_requirements\<close> and \<open>row_category\<close> are used by \<open>programs\<close> only.
\<close>

datatype table = Programs | Ic_program_stats | Cases

fun table_name :: "table \<Rightarrow> string" where
  "table_name Programs = ''programs''"
| "table_name Ic_program_stats = ''ic_program_stats''"
| "table_name Cases = ''cases''"

record row =
  row_id :: int
  row_name :: "string option"
  row_requirements :: "string option"
  row_canonical_program_id :: "int option"
  row_category :: "string option"

type_synonym database = "table \<Rightarrow> row list"

text \<open>
  What the run cannot decide by itself is a parameter: the string similarity and the
  chat completion of the matcher, the outcome of the catalog query, whether the query of
  a table raises, whether the update of a row raises, and the control calls (pause,
  resume, stop, reset, status) of other threads that get the lock before the worker
  reaches the head of its loop for a given row.
\<close>

datatype 'a query_result = Raises | Data 'a

datatype control = Pause | Resume | Stop | Reset | Status

record env =
  env_partial_ratio :: "string \<Rightarrow> string \<Rightarrow> rat"
  env_llm :: "string \<Rightarrow> string \<Rightarrow> string option"
  canonical_programs_query :: "canonical_program list option query_result"
  select_raises :: "table \<Rightarrow> bool"
  update_raises :: "table \<Rightarrow> int \<Rightarrow> bool"
  control_calls :: "table \<Rightarrow> int \<Rightarrow> control list"

subsection \<open>The shared pipeline state and its control functions\<close>

text \<open>
  The dictionary \<open>_pipeline_state\<close>. Its \<open>progress\<close> entry holds a processed and a total
  counter per table (\<open>programs_processed\<close>, \<open>programs_total\<close>, \<open>stats_processed\<close>, ...),
  here two functions of the table.
\<close>

record pipeline_state =
  is_running :: bool
  is_paused :: bool
  should_stop :: bool
  current_table :: "string option"
  last_processed_id :: "int option"
  processed :: "table \<Rightarrow> nat"
  total :: "table \<Rightarrow> nat"

definition pause_pipeline :: "pipeline_state \<Rightarrow> pipeline_state" where
  "pause_pipeline ps = ps\<lparr>is_paused := True\<rparr>"

definition resume_pipeline :: "pipeline_state \<Rightarrow> pipeline_state" where
  "resume_pipeline ps = ps\<lparr>is_paused := False\<rparr>"

definition stop_pipeline :: "pipeline_state \<Rightarrow> pipeline_state" where
  "stop_pipeline ps = ps\<lparr>should_stop := True, is_paused := False\<rparr>"

definition reset_pipeline_state :: "pipeline_state \<Rightarrow> pipeline_state" where
  "reset_pipeline_state ps =
     ps\<lparr>is_running := False, is_paused := False, should_stop := False,
        current_table := None, last_processed_id := None,
        processed := (\<lambda>t. 0), total := (\<lambda>t. 0)\<rparr>"

fun apply_control :: "pipeline_state \<Rightarrow> control \<Rightarrow> pipeline_state" where
  "apply_control ps Pause = pause_pipeline ps"
| "apply_control ps Resume = resume_pipeline ps"
| "apply_control ps Stop = stop_pipeline ps"
| "apply_control ps Reset = reset_pipeline_state ps"
| "apply_control ps Status = ps"

subsection \<open>Queries and updates\<close>

text \<open>Python truthiness of an optional integer (\<open>if cid:\<close>, \<open>if resume_from_id\<close>).\<close>

fun truthy :: "int option \<Rightarrow> bool" where
  "truthy None = False"
| "truthy (Some i) = (i \<noteq> 0)"

text \<open>\<open>x or ""\<close> for an optional string.\<close>

fun or_empty :: "string option \<Rightarrow> string" where
  "or_empty None = []"
| "or_empty (Some s) = s"

text \<open>
  The query of a table: \<open>select("*")\<close>, restricted to rows without canonical id when
  \<open>only_unmatched\<close>, to ids above \<open>resume_from_id\<close> when \<open>resume_from_table\<close> names
  the table and \<open>resume_from_id\<close> is truthy, ordered by id. When the query raises the
  run goes on with the empty list.
\<close>

definition selected :: "table \<Rightarrow> bool \<Rightarrow> int option \<Rightarrow> string option \<Rightarrow> row \<Rightarrow> bool" where
  "selected t only_unmatched resume_from_id resume_from_table r \<longleftrightarrow>
     (only_unmatched \<longrightarrow> row_canonical_program_id r = None) \<and>
     (resume_from_table = Some (table_name t) \<and> truthy resume_from_id
        \<longrightarrow> (case resume_from_id of None \<Rightarrow> True | Some i \<Rightarrow> row_id r > i))"

definition select_rows ::
    "env \<Rightarrow> database \<Rightarrow> table \<Rightarrow> bool \<Rightarrow> int option \<Rightarrow> string option \<Rightarrow> row list" where
  "select_rows e d t only_unmatched resume_from_id resume_from_table =
     (if select_raises e t then []
      else sort_key row_id (filter (selected t only_unmatched resume_from_id resume_from_table) (d t)))"

text \<open>\<open>table(t).update(data).eq("id", i)\<close>: every row with that id gets the new fields.\<close>

definition update_rows :: "(row \<Rightarrow> row) \<Rightarrow> int \<Rightarrow> row list \<Rightarrow> row list" where
  "update_rows f i rows = map (\<lambda>r. if row_id r = i then f r else r) rows"

subsection \<open>The eligibility filter of the statistic and case loops\<close>

definition invalid_keywords :: "string list" where
  "invalid_keywords =
     [''faculty'', ''school'', ''college'', ''department'', ''research masters'',
      ''pg research'', ''masters'', ''phd'', ''doctorate'', ''degree'']"

text \<open>
  \<open>word_count <= 3 and any(keyword in program_name_lower for keyword in invalid_keywords)\<close>
\<close>

definition short_label :: "string \<Rightarrow> bool" where
  "short_label program_name \<longleftrightarrow>
     length (split program_name) \<le> 3 \<and>
     list_ex (\<lambda>keyword. contains keyword (lower program_name)) invalid_keywords"

text \<open>
  \<open>program_name_lower.startswith(("faculty of", "school of", "college of", "department of"))\<close>
\<close>

definition unit_prefix :: "string \<Rightarrow> bool" where
  "unit_prefix program_name \<longleftrightarrow>
     startswith_any (lower program_name)
       [''faculty of'', ''school of'', ''college of'', ''department of'']"

text \<open>The three tests in the order of the source; each ends in \<open>continue\<close>.\<close>

definition skipped :: "string \<Rightarrow> bool" where
  "skipped program_name \<longleftrightarrow>
     program_name = [] \<or> short_label program_name \<or> unit_prefix program_name"

subsection \<open>The run\<close>

text \<open>
  The effects of a run on its collaborators, in the order they happen: the query of the
  catalog, the query of a table, a call of \<open>map_to_canonical\<close> or of
  \<open>classify_category\<close> for a row, the update of a row.
\<close>

datatype effect =
    Select_canonical
  | Select table
  | Match table int string
  | Classify int string
  | Update table int

record world =
  db :: database
  pstate :: pipeline_state
  effects :: "effect list"

text \<open>The dictionary \<open>run_pipeline\<close> returns, without its message.\<close>

record result =
  status :: string
  programs_updated :: nat
  stats_updated :: nat
  cases_updated :: nat
  res_last_processed_id :: "int option"
  res_last_processed_table :: "string option"

text \<open>
  The head of each of the three loops, for the row with id \<open>i\<close> of table \<open>t\<close>. The
  worker takes \<open>_state_lock\<close>; the control calls that got the lock before it have
  changed the flags by then. With \<open>should_stop\<close> set, the branch takes
  \<open>_state_lock\<close> a second time while it holds it; \<open>threading.Lock\<close> is not reentrant,
  so the worker blocks there for ever. With \<open>is_paused\<close> set, the worker sleeps in
  \<open>while _pipeline_state["is_paused"]\<close> inside the \<open>with _state_lock\<close> block; every
  function that clears the flag needs the lock, so the loop never ends. In both cases
  the run does not return (\<open>None\<close>). Otherwise the head records the row as the last
  processed one and counts it.
\<close>

definition controls_applied :: "env \<Rightarrow> table \<Rightarrow> int \<Rightarrow> pipeline_state \<Rightarrow> pipeline_state" where
  "controls_applied e t i ps = foldl apply_control ps (control_calls e t i)"

definition loop_head :: "env \<Rightarrow> table \<Rightarrow> int \<Rightarrow> pipeline_state \<Rightarrow> pipeline_state option" where
  "loop_head e t i ps =
     (let ps1 = controls_applied e t i ps in
      if should_stop ps1 then None
      else if is_paused ps1 then None
      else Some (ps1\<lparr>last_processed_id := Some i,
                      processed := (processed ps1)(t := processed ps1 t + 1)\<rparr>))"

datatype loop_exit = Finished | Blocked

text \<open>
  The loop over \<open>programs\<close>: no name is skipped; the category is always written, the
  canonical id when it is truthy; the counter \<open>updated\<close> (the source's
  \<open>programs_updated\<close>) counts every update that did not raise.
\<close>

fun programs_loop ::
    "env \<Rightarrow> canonical_program list \<Rightarrow> row list \<Rightarrow> world \<Rightarrow> nat \<Rightarrow> loop_exit \<times> world \<times> nat" where
  "programs_loop e canonical_data [] w updated = (Finished, w, updated)"
| "programs_loop e canonical_data (p # rest) w updated =
     (case loop_head e Programs (row_id p) (pstate w) of
        None \<Rightarrow>
          (Blocked, w\<lparr>pstate := controls_applied e Programs (row_id p) (pstate w)\<rparr>,
           updated)
      | Some ps \<Rightarrow>
          let program_id = row_id p;
              program_en_name = or_empty (row_name p);
              requirements = or_empty (row_requirements p);
              cid = map_to_canonical (env_partial_ratio e) (env_llm e) program_en_name canonical_data;
              category = classify_category program_en_name requirements;
              update_data = (\<lambda>r. if truthy cid
                                  then r\<lparr>row_category := Some category, row_canonical_program_id := cid\<rparr>
                                  else r\<lparr>row_category := Some category\<rparr>);
              w1 = w\<lparr>pstate := ps,
                     effects := effects w @
                       [Match Programs program_id program_en_name,
                        Classify program_id program_en_name,
                        Update Programs program_id]\<rparr>
          in if update_raises e Programs program_id
             then programs_loop e canonical_data rest w1 updated
             else programs_loop e canonical_data rest
                    (w1\<lparr>db := (db w1)(Programs := update_rows update_data program_id (db w1 Programs))\<rparr>)
                    (updated + 1))"

text \<open>
  The loops over \<open>ic_program_stats\<close> and \<open>cases\<close> have the same text but for the names
  of the table and of the name column: a skipped name goes to the next row before the
  matcher is called; the canonical id is written when it is truthy, and the counter
  counts the updates that did not raise.
\<close>

fun filtered_loop ::
    "env \<Rightarrow> canonical_program list \<Rightarrow> table \<Rightarrow> row list \<Rightarrow> world \<Rightarrow> nat \<Rightarrow> loop_exit \<times> world \<times> nat" where
  "filtered_loop e canonical_data t [] w updated = (Finished, w, updated)"
| "filtered_loop e canonical_data t (s # rest) w updated =
     (case loop_head e t (row_id s) (pstate w) of
        None \<Rightarrow> (Blocked, w\<lparr>pstate := controls_applied e t (row_id s) (pstate w)\<rparr>, updated)
      | Some ps \<Rightarrow>
          let stat_id = row_id s;
              program_name = or_empty (row_name s);
              w1 = w\<lparr>pstate := ps\<rparr>
          in if program_name = [] then filtered_loop e canonical_data t rest w1 updated
             else if short_label program_name then filtered_loop e canonical_data t rest w1 updated
             else if unit_prefix program_name then filtered_loop e canonical_data t rest w1 updated
             else
               let cid = map_to_canonical (env_partial_ratio e) (env_llm e) program_name canonical_data;
                   w2 = w1\<lparr>effects := effects w1 @ [Match t stat_id program_name]\<rparr>
               in if truthy cid
                  then
                    let w3 = w2\<lparr>effects := effects w2 @ [Update t stat_id]\<rparr>
                    in if update_raises e t stat_id
                       then filtered_loop e canonical_data t rest w3 updated
                       else filtered_loop e canonical_data t rest
                              (w3\<lparr>db := (db w3)(t := update_rows
                                      (\<lambda>r. r\<lparr>row_canonical_program_id := cid\<rparr>) stat_id (db w3 t))\<rparr>)
                              (updated + 1)
                  else filtered_loop e canonical_data t rest w2 updated)"

text \<open>
  What every table gets before its loop: \<open>current_table\<close> is set (and, for the second and
  third table, \<open>last_processed_id\<close> cleared), the rows are queried, the counters of the
  table are set.
\<close>

definition enter_table ::
    "env \<Rightarrow> table \<Rightarrow> bool \<Rightarrow> bool \<Rightarrow> int option \<Rightarrow> string option \<Rightarrow> world \<Rightarrow> row list \<times> world" where
  "enter_table e t clear_last only_unmatched resume_from_id resume_from_table w =
     (let rows = select_rows e (db w) t only_unmatched resume_from_id resume_from_table;
          ps = pstate w;
          ps1 = ps\<lparr>current_table := Some (table_name t),
                   last_processed_id := (if clear_last then None else last_processed_id ps)\<rparr>;
          ps2 = ps1\<lparr>total := (total ps1)(t := length rows),
                    processed := (processed ps1)(t := 0)\<rparr>
      in (rows, w\<lparr>pstate := ps2, effects := effects w @ [Select t]\<rparr>))"

definition aborted :: "string \<Rightarrow> result" where
  "aborted st =
     \<lparr>status = st, programs_updated = 0, stats_updated = 0, cases_updated = 0,
      res_last_processed_id = None, res_last_processed_table = None\<rparr>"

datatype outcome = Returns result | Blocks

definition not_running :: "world \<Rightarrow> world" where
  "not_running w = w\<lparr>pstate := (pstate w)\<lparr>is_running := False\<rparr>\<rparr>"

text \<open>
  The world after the run has claimed the pipeline (\<open>is_running\<close> set, the two flags
  cleared) and queried the catalog, and the world a run that went through all three
  tables leaves.
\<close>

definition started :: "database \<Rightarrow> pipeline_state \<Rightarrow> world" where
  "started d ps =
     \<lparr>db = d,
      pstate = ps\<lparr>is_running := True, is_paused := False, should_stop := False\<rparr>,
      effects = [Select_canonical]\<rparr>"

definition completed :: "world \<Rightarrow> world" where
  "completed w =
     w\<lparr>pstate := (pstate w)\<lparr>is_running := False, current_table := None,
                             last_processed_id := None\<rparr>\<rparr>"

text \<open>
  The three tables in turn, once the catalog \<open>canonical_data\<close> is loaded and not empty.
  A loop that blocks ends the run without a result.
\<close>

definition process_tables ::
    "env \<Rightarrow> canonical_program list \<Rightarrow> int option \<Rightarrow> string option \<Rightarrow> bool \<Rightarrow> world \<Rightarrow>
     outcome \<times> world" where
  "process_tables e canonical_data resume_from_id resume_from_table only_unmatched w0 =
     (case enter_table e Programs False only_unmatched resume_from_id resume_from_table w0 of
        (programs, w1) \<Rightarrow>
     (case programs_loop e canonical_data programs w1 0 of
        (Blocked, w2, n) \<Rightarrow> (Blocks, w2)
      | (Finished, w2, n_programs) \<Rightarrow>
     (case enter_table e Ic_program_stats True only_unmatched resume_from_id resume_from_table w2 of
        (stats, w3) \<Rightarrow>
     (case filtered_loop e canonical_data Ic_program_stats stats w3 0 of
        (Blocked, w4, n) \<Rightarrow> (Blocks, w4)
      | (Finished, w4, n_stats) \<Rightarrow>
     (case enter_table e Cases True only_unmatched resume_from_id resume_from_table w4 of
        (cases, w5) \<Rightarrow>
     (case filtered_loop e canonical_data Cases cases w5 0 of
        (Blocked, w6, n) \<Rightarrow> (Blocks, w6)
      | (Finished, w6, n_cases) \<Rightarrow>
          (Returns \<lparr>status = ''ok'', programs_updated = n_programs,
                    stats_updated = n_stats, cases_updated = n_cases,
                    res_last_processed_id = None, res_last_processed_table = None\<rparr>,
           completed w6)))))))"

text \<open>
  \<open>run_pipeline\<close>: a run that finds the pipeline running is refused and changes nothing;
  a catalog query that raises ends the run with status \<open>error\<close>, a catalog that is
  \<open>None\<close> or empty with status \<open>stopped\<close>, both before any table is read. The
  source wraps the body in a \<open>try\<close> whose \<open>except\<close> branch returns status \<open>error\<close>
  with the counts reached; the only statements that raise in the model are the queries
  and the updates, which the source catches where they are, so that branch has no
  counterpart here.
\<close>

definition run_pipeline ::
    "env \<Rightarrow> int option \<Rightarrow> string option \<Rightarrow> bool \<Rightarrow> database \<Rightarrow> pipeline_state \<Rightarrow> outcome \<times> world" where
  "run_pipeline e resume_from_id resume_from_table only_unmatched d ps =
     (if is_running ps then (Returns (aborted ''error''), \<lparr>db = d, pstate = ps, effects = []\<rparr>)
      else
        (case canonical_programs_query e of
           Raises \<Rightarrow> (Returns (aborted ''error''), not_running (started d ps))
         | Data None \<Rightarrow> (Returns (aborted ''stopped''), not_running (started d ps))
         | Data (Some canonical_data) \<Rightarrow>
             if length canonical_data = 0
             then (Returns (aborted ''stopped''), not_running (started d ps))
             else process_tables e canonical_data resume_from_id resume_from_table
                    only_unmatched (started d ps)))"

section \<open>api/v1/canonical.py: the checkpoint\<close>

text \<open>
  The entry \<open>get_checkpoint\<close> computes for a table: the highest id with a canonical id,
  the lowest id without one, and the number of rows without one.
\<close>

record table_checkpoint =
  ck_last_processed_id :: "int option"
  ck_first_unmatched_id :: "int option"
  ck_unmatched_count :: nat

definition table_checkpoint_of :: "row list \<Rightarrow> table_checkpoint" where
  "table_checkpoint_of rows =
     (let last_processed =
            rev (sort_key row_id (filter (\<lambda>r. row_canonical_program_id r \<noteq> None) rows));
          first_unmatched =
            sort_key row_id (filter (\<lambda>r. row_canonical_program_id r = None) rows)
      in \<lparr>ck_last_processed_id =
             (case last_processed of [] \<Rightarrow> None | r # _ \<Rightarrow> Some (row_id r)),
          ck_first_unmatched_id =
             (case first_unmatched of [] \<Rightarrow> None | r # _ \<Rightarrow> Some (row_id r)),
          ck_unmatched_count = length first_unmatched\<rparr>)"

text \<open>
  When a query of the table raises, the entry is the dictionary \<open>{"error": ...}\<close>, from
  which every \<open>get\<close> of the recommendation reads \<open>None\<close>: the entry is \<open>None\<close> here.
\<close>

definition checkpoint_of :: "(table \<Rightarrow> bool) \<Rightarrow> database \<Rightarrow> table \<Rightarrow> table_checkpoint option" where
  "checkpoint_of raises d t = (if raises t then None else Some (table_checkpoint_of (d t)))"

definition entry_get :: "(table_checkpoint \<Rightarrow> int option) \<Rightarrow> table_checkpoint option \<Rightarrow> int option" where
  "entry_get field entry = (case entry of None \<Rightarrow> None | Some ck \<Rightarrow> field ck)"

text \<open>Python's \<open>a or b\<close> on optional integers.\<close>

definition py_or :: "int option \<Rightarrow> int option \<Rightarrow> int option" where
  "py_or a b = (if truthy a then a else b)"

text \<open>
  The two entries of \<open>"recommendation"\<close>: \<open>resume_from_table\<close> is the chain of
  \<open>first_unmatched_id and "table" or ...\<close> over the three tables, \<open>resume_from_id\<close> the
  chain of \<open>last_processed_id or ...\<close> over the three tables.
\<close>

definition resume_from_table_of :: "(table \<Rightarrow> table_checkpoint option) \<Rightarrow> string option" where
  "resume_from_table_of checkpoint =
     (if truthy (entry_get ck_first_unmatched_id (checkpoint Programs)) then Some ''programs''
      else if truthy (entry_get ck_first_unmatched_id (checkpoint Ic_program_stats))
        then Some ''ic_program_stats''
      else if truthy (entry_get ck_first_unmatched_id (checkpoint Cases)) then Some ''cases''
      else None)"

definition resume_from_id_of :: "(table \<Rightarrow> table_checkpoint option) \<Rightarrow> int option" where
  "resume_from_id_of checkpoint =
     py_or (entry_get ck_last_processed_id (checkpoint Programs))
       (py_or (entry_get ck_last_processed_id (checkpoint Ic_program_stats))
          (entry_get ck_last_processed_id (checkpoint Cases)))"

definition recommendation :: "(table \<Rightarrow> table_checkpoint option) \<Rightarrow> string option \<times> int option" where
  "recommendation checkpoint = (resume_from_table_of checkpoint, resume_from_id_of checkpoint)"

section \<open>Concrete inputs\<close>

text \<open>
  An environment in which nothing fails and no control call arrives, whose similarity
  score is always 0 and whose oracle never answers; the state of a process that has run
  no pipeline yet; a row with a name.
\<close>

definition quiet_env :: "canonical_program list option query_result \<Rightarrow> env" where
  "quiet_env q =
     \<lparr>env_partial_ratio = (\<lambda>a b. 0), env_llm = (\<lambda>a b. None),
      canonical_programs_query = q,
      select_raises = (\<lambda>t. False), update_raises = (\<lambda>t i. False),
      control_calls = (\<lambda>t i. [])\<rparr>"

definition idle_state :: pipeline_state where
  "idle_state =
     \<lparr>is_running = False, is_paused = False, should_stop = False, current_table = None,
      last_processed_id = None, processed = (\<lambda>t. 0), total = (\<lambda>t. 0)\<rparr>"

definition named_row :: "int \<Rightarrow> string \<Rightarrow> int option \<Rightarrow> row" where
  "named_row i n c =
     \<lparr>row_id = i, row_name = Some n, row_requirements = None,
      row_canonical_program_id = c, row_category = None\<rparr>"

definition one_entry_catalog :: "canonical_program list" where
  "one_entry_catalog =
     [\<lparr>cp_id = Some 7, canonical_program_name_en = Some ''Computer Science'',
       cp_keywords = None\<rparr>]"

fun tables :: "row list \<Rightarrow> row list \<Rightarrow> row list \<Rightarrow> database" where
  "tables ps ss cs Programs = ps"
| "tables ps ss cs Ic_program_stats = ss"
| "tables ps ss cs Cases = cs"

text \<open>
  A store for two runs in a row: a primary row no catalog entry matches, a statistic row
  the filter skips, a statistic row and a case row that match the catalog entry exactly.
\<close>

definition rerun_store :: database where
  "rerun_store =
     tables [named_row 1 ''Law'' None]
            [named_row 1 ''School of Medicine'' None, named_row 2 ''MSc Computer Science'' None]
            [named_row 1 ''Computer Science'' None]"

definition first_run :: "outcome \<times> world" where
  "first_run =
     run_pipeline (quiet_env (Data (Some one_entry_catalog))) None None True rerun_store idle_state"

definition second_run :: "outcome \<times> world" where
  "second_run =
     run_pipeline (quiet_env (Data (Some one_entry_catalog))) None None True
       (db (snd first_run)) idle_state"

section \<open>The lock at the head of the loops\<close>

text \<open>
  The head of the three loops and the control functions, statement by statement, as two
  threads that share \<open>_pipeline_state\<close> and the lock \<open>_state_lock\<close>. The lock is a
  \<open>threading.Lock\<close>: it has at most one owner, and a thread that asks for it while it has
  an owner waits, also when the owner is the thread itself.

  The worker goes through the rows of one table. Its places in the source:
  \<^item> \<open>At_for\<close>: \<open>for p in programs:\<close>, the next row or the end of the loop;
  \<^item> \<open>With_lock\<close>: the outer \<open>with _state_lock:\<close>;
  \<^item> \<open>Test_stop\<close>: \<open>if _pipeline_state["should_stop"]:\<close>, inside the outer block;
  \<^item> \<open>Inner_with\<close>: the \<open>with _state_lock:\<close> of the stop branch, inside the outer block;
  \<^item> \<open>Test_paused\<close>: \<open>while _pipeline_state["is_paused"]:\<close>, inside the outer block;
  \<^item> \<open>Sleeping\<close>: \<open>time.sleep(0.5)\<close>, inside the outer block;
  \<^item> \<open>Count\<close>: the two assignments that end the outer block, which releases the lock;
  \<^item> \<open>Body\<close>: the rest of the loop body, outside the lock;
  \<^item> \<open>Stop_returned\<close>: the \<open>return\<close> of the stop branch; \<open>Loop_done\<close>: after the loop.
\<close>

datatype thread = Worker | Caller

datatype worker_place =
    At_for | With_lock | Test_stop | Inner_with | Test_paused | Sleeping | Count | Body
  | Stop_returned | Loop_done

text \<open>
  A caller of \<open>pause_pipeline\<close>, \<open>resume_pipeline\<close>, \<open>stop_pipeline\<close>,
  \<open>reset_pipeline_state\<close> or \<open>get_pipeline_status\<close>: outside a call, at the
  \<open>with _state_lock:\<close> of the function, or inside its block.
\<close>

datatype caller_place = Caller_idle | Caller_waits control | Caller_holds control

record system =
  lock_owner :: "thread option"
  shared :: pipeline_state
  worker_place :: worker_place
  worker_table :: table
  worker_rows :: "int list"
  caller_place :: caller_place

text \<open>What the scheduler can do next: let a thread run its next statement, or start a call.\<close>

datatype action = Worker_runs | Caller_calls control | Caller_runs

text \<open>
  The next statement of the worker. At \<open>With_lock\<close> and at \<open>Inner_with\<close> the worker
  waits (the state does not change) while the lock has an owner.
\<close>

definition worker_step :: "system \<Rightarrow> system" where
  "worker_step s =
     (case worker_place s of
        At_for \<Rightarrow>
          (if worker_rows s = [] then s\<lparr>worker_place := Loop_done\<rparr>
           else s\<lparr>worker_place := With_lock\<rparr>)
      | With_lock \<Rightarrow>
          (if lock_owner s = None then s\<lparr>lock_owner := Some Worker, worker_place := Test_stop\<rparr>
           else s)
      | Test_stop \<Rightarrow>
          (if should_stop (shared s) then s\<lparr>worker_place := Inner_with\<rparr>
           else s\<lparr>worker_place := Test_paused\<rparr>)
      | Inner_with \<Rightarrow>
          (if lock_owner s = None
           then s\<lparr>shared := (shared s)\<lparr>is_running := False\<rparr>, worker_place := Stop_returned\<rparr>
           else s)
      | Test_paused \<Rightarrow>
          (if is_paused (shared s) then s\<lparr>worker_place := Sleeping\<rparr>
           else s\<lparr>worker_place := Count\<rparr>)
      | Sleeping \<Rightarrow> s\<lparr>worker_place := Test_paused\<rparr>
      | Count \<Rightarrow>
          (case worker_rows s of
             [] \<Rightarrow> s
           | i # rest \<Rightarrow>
               s\<lparr>shared := (shared s)\<lparr>last_processed_id := Some i,
                     processed := (processed (shared s))
                       (worker_table s := processed (shared s) (worker_table s) + 1)\<rparr>,
                  lock_owner := None, worker_place := Body\<rparr>)
      | Body \<Rightarrow> s\<lparr>worker_rows := tl (worker_rows s), worker_place := At_for\<rparr>
      | Stop_returned \<Rightarrow> s
      | Loop_done \<Rightarrow> s)"

text \<open>
  The next statement of the caller: it waits for the lock, and with the lock it changes
  the flags as its function says and gives the lock back.
\<close>

definition caller_step :: "system \<Rightarrow> system" where
  "caller_step s =
     (case caller_place s of
        Caller_idle \<Rightarrow> s
      | Caller_waits c \<Rightarrow>
          (if lock_owner s = None
           then s\<lparr>lock_owner := Some Caller, caller_place := Caller_holds c\<rparr>
           else s)
      | Caller_holds c \<Rightarrow>
          s\<lparr>shared := apply_control (shared s) c, lock_owner := None,
             caller_place := Caller_idle\<rparr>)"

fun exec :: "system \<Rightarrow> action \<Rightarrow> system" where
  "exec s Worker_runs = worker_step s"
| "exec s (Caller_calls c) =
     (if caller_place s = Caller_idle then s\<lparr>caller_place := Caller_waits c\<rparr> else s)"
| "exec s Caller_runs = caller_step s"

text \<open>A schedule is the list of the scheduler's choices; \<open>run_schedule\<close> follows it.\<close>

definition run_schedule :: "action list \<Rightarrow> system \<Rightarrow> system" where
  "run_schedule schedule s = foldl exec s schedule"

fun caller_holds :: "caller_place \<Rightarrow> bool" where
  "caller_holds (Caller_holds c) = True"
| "caller_holds _ = False"

text \<open>
  The worker owns the lock and is in the pause wait with the pause flag set, or at the
  inner \<open>with\<close> of the stop branch.
\<close>

definition wedged :: "system \<Rightarrow> bool" where
  "wedged s \<longleftrightarrow>
     lock_owner s = Some Worker \<and> \<not> caller_holds (caller_place s) \<and>
     (((worker_place s = Test_paused \<or> worker_place s = Sleeping) \<and> is_paused (shared s)) \<or>
      worker_place s = Inner_with)"

text \<open>
  A run over two rows of \<open>programs\<close>, between two rows, right after a call of
  \<open>pause_pipeline\<close> has returned.
\<close>

definition paused_between_rows :: system where
  "paused_between_rows =
     \<lparr>lock_owner = None,
      shared = pause_pipeline (idle_state\<lparr>is_running := True\<rparr>),
      worker_place = At_for, worker_table = Programs, worker_rows = [1, 2],
      caller_place = Caller_idle\<rparr>"

section \<open>Vocabulary of the properties\<close>

text \<open>
  An effect respects the eligibility filter when it is not a call of the matcher from
  the statistic or the case loop on a name the filter skips.
\<close>

fun filter_respected :: "effect \<Rightarrow> bool" where
  "filter_respected (Match t i n) = (t = Programs \<or> \<not> skipped n)"
| "filter_respected _ = True"

text \<open>
  A row of the statistic or case table that a run leaves without canonical id whatever
  the store does: its name is skipped, or the matcher's answer for it is not truthy.
\<close>

definition stays_unmatched :: "env \<Rightarrow> canonical_program list \<Rightarrow> row \<Rightarrow> bool" where
  "stays_unmatched e canonical_data s \<longleftrightarrow>
     skipped (or_empty (row_name s)) \<or>
     \<not> truthy (map_to_canonical (env_partial_ratio e) (env_llm e) (or_empty (row_name s))
                  canonical_data)"

section \<open>Properties of the name normalizer\<close>

text \<open>
  Claim C5 (whole-word removal of the degree tokens). The comment of the source says the
  step removes degree and programme words, but the pattern has no word boundaries: the
  token \<open>ma\<close> is cut out of \<open>mathematics\<close> twice and \<open>ms\<close> out of \<open>systems\<close>.
  The theorem evaluates the normalizer at two names whose words contain a token strictly
  inside: the tokens are not left intact.
\<close>

theorem normalize_name_cuts_inside_words:
  "normalize_name ''Mathematics'' = ''thetics'' \<and>
   normalize_name ''Information Systems'' = ''infortion syste''"
  by code_simp

text \<open>
  Claim C4 (idempotence of the normalizer). Deleting a token inside a word can join the
  letters around it into a new token: \<open>mmsa\<close> loses \<open>ms\<close> and becomes \<open>ma\<close>, which
  a second pass deletes. The normalizer is not idempotent at this input.
\<close>

theorem normalize_name_not_idempotent:
  "normalize_name ''mmsa'' = ''ma'' \<and>
   normalize_name (normalize_name ''mmsa'') = [] \<and>
   normalize_name (normalize_name ''mmsa'') \<noteq> normalize_name ''mmsa''"
  by code_simp

section \<open>Properties of the cascading matcher\<close>

lemma first_id_first:
  "\<forall>x\<in>set pre. \<not> cond x \<Longrightarrow> cond c \<Longrightarrow> first_id cond (pre @ c # post) = Some (cp_id c)"
  by (induction pre) auto

lemma first_id_none: "\<forall>x\<in>set cs. \<not> cond x \<Longrightarrow> first_id cond cs = None"
  by (induction cs) auto

text \<open>
  Claim C1, as stated, at the empty raw name: the catalog entry \<open>PhD\<close> normalizes to the
  empty string, as the empty raw name does, so the entry satisfies the exact condition;
  yet \<open>map_to_canonical\<close> returns \<open>None\<close> from its guard and not the entry's id.
\<close>

theorem map_to_canonical_empty_name_counterexample:
  "exact_accepts (normalize_name [])
     \<lparr>cp_id = Some 1, canonical_program_name_en = Some ''PhD'', cp_keywords = None\<rparr> \<and>
   map_to_canonical (\<lambda>a b. 0) (\<lambda>a b. None) []
     [\<lparr>cp_id = Some 1, canonical_program_name_en = Some ''PhD'', cp_keywords = None\<rparr>] = None"
  by code_simp

text \<open>
  Claim C1, amended to non-empty raw names. For every non-empty raw name and every
  catalog: when no entry satisfies a stage before stage \<open>k\<close>, and \<open>c\<close> is the first
  entry in catalog order that satisfies stage \<open>k\<close>, the result is the id of \<open>c\<close>; when
  no entry satisfies any stage, the result is \<open>None\<close>. With \<open>k = 0\<close>: an entry that
  satisfies the exact condition wins over every fuzzy, keyword or semantic candidate.
\<close>

theorem map_to_canonical_first_in_order:
  assumes "program_name \<noteq> []"
  shows "(canonical_list = pre @ c # post \<and> k < 4 \<and>
          (\<forall>j<k. \<forall>x\<in>set canonical_list. \<not> (matcher_stages pr llm program_name ! j) x) \<and>
          (\<forall>x\<in>set pre. \<not> (matcher_stages pr llm program_name ! k) x) \<and>
          (matcher_stages pr llm program_name ! k) c
          \<longrightarrow> map_to_canonical pr llm program_name canonical_list = cp_id c) \<and>
         ((\<forall>j<4. \<forall>x\<in>set canonical_list. \<not> (matcher_stages pr llm program_name ! j) x)
          \<longrightarrow> map_to_canonical pr llm program_name canonical_list = None)"
proof (intro conjI impI)
  let ?st = "matcher_stages pr llm program_name"
  assume none: "\<forall>j<4. \<forall>x\<in>set canonical_list. \<not> (?st ! j) x"
  have "\<forall>x\<in>set canonical_list. \<not> (?st ! 0) x" "\<forall>x\<in>set canonical_list. \<not> (?st ! 1) x"
       "\<forall>x\<in>set canonical_list. \<not> (?st ! 2) x" "\<forall>x\<in>set canonical_list. \<not> (?st ! 3) x"
    using none by simp_all
  then show "map_to_canonical pr llm program_name canonical_list = None"
    by (simp add: map_to_canonical_def matcher_stages_def first_id_none)
next
  let ?st = "matcher_stages pr llm program_name"
  assume a: "canonical_list = pre @ c # post \<and> k < 4 \<and>
          (\<forall>j<k. \<forall>x\<in>set canonical_list. \<not> (?st ! j) x) \<and>
          (\<forall>x\<in>set pre. \<not> (?st ! k) x) \<and> (?st ! k) c"
  then have cl: "canonical_list = pre @ c # post" and k: "k < 4"
    and earlier: "\<And>j. j < k \<Longrightarrow> first_id (?st ! j) canonical_list = None"
    and here: "first_id (?st ! k) canonical_list = Some (cp_id c)"
    by (simp_all add: first_id_none first_id_first)
  from k consider "k = 0" | "k = 1" | "k = 2" | "k = 3" by linarith
  then show "map_to_canonical pr llm program_name canonical_list = cp_id c"
  proof cases
    case 1
    with here assms cl show ?thesis
      by (simp add: map_to_canonical_def matcher_stages_def)
  next
    case 2
    with here earlier [of 0] assms cl show ?thesis
      by (simp add: map_to_canonical_def matcher_stages_def)
  next
    case 3
    with here earlier [of 0] earlier [of 1] assms cl show ?thesis
      by (simp add: map_to_canonical_def matcher_stages_def)
  next
    case 4
    with here earlier [of 0] earlier [of 1] earlier [of 2] assms cl show ?thesis
      by (simp add: map_to_canonical_def matcher_stages_def)
  qed
qed

text \<open>
  The theorem at a catalog whose first entry every later stage would accept (the fuzzy
  score is 100 and the oracle says yes for every pair): the second entry matches exactly
  and wins.
\<close>

theorem map_to_canonical_first_in_order_witness:
  "''MSc Computer Science'' \<noteq> [] \<and>
   map_to_canonical (\<lambda>a b. 100) (\<lambda>a b. Some ''yes'') ''MSc Computer Science''
     [\<lparr>cp_id = Some 1, canonical_program_name_en = Some ''Data Science'', cp_keywords = None\<rparr>,
      \<lparr>cp_id = Some 2, canonical_program_name_en = Some ''Computer Science'', cp_keywords = None\<rparr>]
   = Some 2"
proof -
  let ?c1 = "\<lparr>cp_id = Some 1, canonical_program_name_en = Some ''Data Science'', cp_keywords = None\<rparr>"
  let ?c2 = "\<lparr>cp_id = Some 2, canonical_program_name_en = Some ''Computer Science'', cp_keywords = None\<rparr>"
  let ?st = "matcher_stages (\<lambda>a b. 100) (\<lambda>a b. Some ''yes'') ''MSc Computer Science''"
  have n: "''MSc Computer Science'' \<noteq> []" by simp
  have p: "\<not> (?st ! 0) ?c1" by code_simp
  have q: "(?st ! 0) ?c2" by code_simp
  show ?thesis
    using map_to_canonical_first_in_order [OF n, of "[?c1, ?c2]" "[?c1]" ?c2 "[]" 0] p q by simp
qed

section \<open>Properties of the category classifier\<close>

lemma classify_loop_unchanged:
  "\<forall>x\<in>set tbl. keyword_overlap_score text (snd x) \<le> bs \<Longrightarrow>
   classify_loop text tbl (bc, bs) = (bc, bs)"
  by (induction tbl) (auto simp: Let_def)

lemma classify_loop_pick:
  "\<exists>x\<in>set tbl. bs < keyword_overlap_score text (snd x) \<Longrightarrow>
   \<exists>pre c k post. tbl = pre @ (c, k) # post \<and>
     classify_loop text tbl (bc, bs) = (Some c, keyword_overlap_score text k) \<and>
     bs < keyword_overlap_score text k \<and>
     (\<forall>x\<in>set pre. keyword_overlap_score text (snd x) < keyword_overlap_score text k) \<and>
     (\<forall>x\<in>set post. keyword_overlap_score text (snd x) \<le> keyword_overlap_score text k)"
proof (induction tbl arbitrary: bc bs)
  case Nil
  then show ?case by simp
next
  case (Cons a tbl)
  obtain c0 k0 where a: "a = (c0, k0)" by (cases a)
  let ?s = "keyword_overlap_score text"
  show ?case
  proof (cases "bs < ?s k0")
    case True
    then have step: "classify_loop text (a # tbl) (bc, bs) = classify_loop text tbl (Some c0, ?s k0)"
      by (simp add: a)
    show ?thesis
    proof (cases "\<exists>x\<in>set tbl. ?s k0 < ?s (snd x)")
      case True
      from Cons.IH [OF True, of "Some c0"] obtain pre c k post where
        p: "tbl = pre @ (c, k) # post"
           "classify_loop text tbl (Some c0, ?s k0) = (Some c, ?s k)"
           "?s k0 < ?s k"
           "\<forall>x\<in>set pre. ?s (snd x) < ?s k"
           "\<forall>x\<in>set post. ?s (snd x) \<le> ?s k"
        by blast
      have "a # tbl = (a # pre) @ (c, k) # post" using p(1) by simp
      moreover have "classify_loop text (a # tbl) (bc, bs) = (Some c, ?s k)"
        using step p(2) by simp
      moreover have "bs < ?s k" using \<open>bs < ?s k0\<close> p(3) by simp
      moreover have "\<forall>x\<in>set (a # pre). ?s (snd x) < ?s k" using p(3,4) a by simp
      ultimately show ?thesis using p(5) by blast
    next
      case False
      then have le: "\<forall>x\<in>set tbl. ?s (snd x) \<le> ?s k0" by (auto simp: not_less)
      from classify_loop_unchanged [OF le, of "Some c0"] step
      have "classify_loop text (a # tbl) (bc, bs) = (Some c0, ?s k0)" by simp
      moreover have "a # tbl = [] @ (c0, k0) # tbl" by (simp add: a)
      ultimately show ?thesis using True le by (metis empty_iff list.set(1))
    qed
  next
    case False
    then have step: "classify_loop text (a # tbl) (bc, bs) = classify_loop text tbl (bc, bs)"
      by (simp add: a)
    from False Cons.prems a have ex: "\<exists>x\<in>set tbl. bs < ?s (snd x)" by auto
    from Cons.IH [OF ex, of bc] obtain pre c k post where
      p: "tbl = pre @ (c, k) # post"
         "classify_loop text tbl (bc, bs) = (Some c, ?s k)"
         "bs < ?s k"
         "\<forall>x\<in>set pre. ?s (snd x) < ?s k"
         "\<forall>x\<in>set post. ?s (snd x) \<le> ?s k"
      by blast
    have "a # tbl = (a # pre) @ (c, k) # post" using p(1) by simp
    moreover have "classify_loop text (a # tbl) (bc, bs) = (Some c, ?s k)"
      using step p(2) by simp
    moreover have "\<forall>x\<in>set (a # pre). ?s (snd x) < ?s k" using p(3,4) a False by auto
    ultimately show ?thesis using p(3,5) by blast
  qed
qed

lemma keyword_overlap_score_nonneg: "0 \<le> keyword_overlap_score text kws"
  by (simp add: keyword_overlap_score_def)

text \<open>
  Claim C9. The classifier answers \<open>other\<close> when the lower-cased haystack is blank, and
  when every category of the table scores 0. Otherwise its answer is a category of the
  table whose score is positive, strictly above the score of every category registered
  before it and at least the score of every category registered after it: the highest
  score, and among categories that tie at it the first registered.
\<close>

theorem classify_category_highest_first:
  "(strip (lower (program_name @ '' '' @ requirements)) = []
      \<longrightarrow> classify_category program_name requirements = ''other'') \<and>
   ((\<forall>x\<in>set MAJOR_KEYWORDS.
        keyword_overlap_score (lower (program_name @ '' '' @ requirements)) (snd x) = 0)
      \<longrightarrow> classify_category program_name requirements = ''other'') \<and>
   (strip (lower (program_name @ '' '' @ requirements)) \<noteq> [] \<and>
    (\<exists>x\<in>set MAJOR_KEYWORDS.
        keyword_overlap_score (lower (program_name @ '' '' @ requirements)) (snd x) \<noteq> 0)
      \<longrightarrow> (\<exists>pre kws post.
            MAJOR_KEYWORDS = pre @ (classify_category program_name requirements, kws) # post \<and>
            0 < keyword_overlap_score (lower (program_name @ '' '' @ requirements)) kws \<and>
            (\<forall>x\<in>set pre.
               keyword_overlap_score (lower (program_name @ '' '' @ requirements)) (snd x)
               < keyword_overlap_score (lower (program_name @ '' '' @ requirements)) kws) \<and>
            (\<forall>x\<in>set post.
               keyword_overlap_score (lower (program_name @ '' '' @ requirements)) (snd x)
               \<le> keyword_overlap_score (lower (program_name @ '' '' @ requirements)) kws)))"
proof (intro conjI impI)
  let ?text = "lower (program_name @ '' '' @ requirements)"
  assume "strip ?text = []"
  then show "classify_category program_name requirements = ''other''"
    by (simp add: classify_category_def classify_with_def)
next
  let ?text = "lower (program_name @ '' '' @ requirements)"
  assume "\<forall>x\<in>set MAJOR_KEYWORDS. keyword_overlap_score ?text (snd x) = 0"
  then have "\<forall>x\<in>set MAJOR_KEYWORDS. keyword_overlap_score ?text (snd x) \<le> 0" by simp
  from classify_loop_unchanged [OF this, of None]
  show "classify_category program_name requirements = ''other''"
    by (simp add: classify_category_def classify_with_def Let_def)
next
  let ?text = "lower (program_name @ '' '' @ requirements)"
  let ?s = "keyword_overlap_score ?text"
  assume a: "strip ?text \<noteq> [] \<and> (\<exists>x\<in>set MAJOR_KEYWORDS. ?s (snd x) \<noteq> 0)"
  then obtain x where "x \<in> set MAJOR_KEYWORDS" "?s (snd x) \<noteq> 0" by blast
  with keyword_overlap_score_nonneg [of ?text "snd x"]
  have ex: "\<exists>x\<in>set MAJOR_KEYWORDS. 0 < ?s (snd x)" by force
  from classify_loop_pick [OF ex, of None] obtain pre c k post where
    p: "MAJOR_KEYWORDS = pre @ (c, k) # post"
       "classify_loop ?text MAJOR_KEYWORDS (None, 0) = (Some c, ?s k)"
       "0 < ?s k"
       "\<forall>x\<in>set pre. ?s (snd x) < ?s k"
       "\<forall>x\<in>set post. ?s (snd x) \<le> ?s k"
    by blast
  have "classify_category program_name requirements = c"
    using a p(2) by (simp add: classify_category_def classify_with_def Let_def)
  with p show "\<exists>pre kws post.
            MAJOR_KEYWORDS = pre @ (classify_category program_name requirements, kws) # post \<and>
            0 < ?s kws \<and> (\<forall>x\<in>set pre. ?s (snd x) < ?s kws) \<and> (\<forall>x\<in>set post. ?s (snd x) \<le> ?s kws)"
    by blast
qed

text \<open>
  The theorem at \<open>Process Risk\<close>, where \<open>chemical_engineering\<close> (keyword \<open>process\<close>,
  1 of 14) and \<open>finance\<close> (keyword \<open>risk\<close>, 1 of 14) tie at the highest score and
  the earlier one is returned, and at a blank name.
\<close>

theorem classify_category_highest_first_witness:
  "strip (lower (''Process Risk'' @ '' '' @ [])) \<noteq> [] \<and>
   (\<exists>x\<in>set MAJOR_KEYWORDS.
        keyword_overlap_score (lower (''Process Risk'' @ '' '' @ [])) (snd x) \<noteq> 0) \<and>
   (\<exists>pre kws post.
       MAJOR_KEYWORDS = pre @ (classify_category ''Process Risk'' [], kws) # post \<and>
       0 < keyword_overlap_score (lower (''Process Risk'' @ '' '' @ [])) kws \<and>
       (\<forall>x\<in>set pre.
          keyword_overlap_score (lower (''Process Risk'' @ '' '' @ [])) (snd x)
          < keyword_overlap_score (lower (''Process Risk'' @ '' '' @ [])) kws) \<and>
       (\<forall>x\<in>set post.
          keyword_overlap_score (lower (''Process Risk'' @ '' '' @ [])) (snd x)
          \<le> keyword_overlap_score (lower (''Process Risk'' @ '' '' @ [])) kws)) \<and>
   classify_category ''Process Risk'' [] = ''chemical_engineering'' \<and>
   classify_category ''   '' [] = ''other''"
proof -
  have h1: "strip (lower (''Process Risk'' @ '' '' @ [])) \<noteq> []" by code_simp
  have h2: "\<exists>x\<in>set MAJOR_KEYWORDS.
        keyword_overlap_score (lower (''Process Risk'' @ '' '' @ [])) (snd x) \<noteq> 0"
    by code_simp
  have h3: "classify_category ''Process Risk'' [] = ''chemical_engineering''" by code_simp
  have h4: "strip (lower (''   '' @ '' '' @ [])) = []" by code_simp
  from classify_category_highest_first [of "''Process Risk''" "[]"]
       classify_category_highest_first [of "''   ''" "[]"] h1 h2 h3 h4
  show ?thesis by blast
qed

section \<open>Properties of the run\<close>

subsection \<open>The eligibility filter\<close>

lemma programs_loop_effects:
  "list_all filter_respected (effects w) \<Longrightarrow>
   list_all filter_respected (effects (fst (snd (programs_loop e cl rows w n))))"
  by (induction rows arbitrary: w n) (auto simp: Let_def split: option.splits)

lemma filtered_loop_effects:
  "list_all filter_respected (effects w) \<Longrightarrow>
   list_all filter_respected (effects (fst (snd (filtered_loop e cl t rows w n))))"
  by (induction rows arbitrary: w n) (auto simp: Let_def skipped_def split: option.splits)

lemma enter_table_effects:
  "list_all filter_respected (effects w) \<Longrightarrow>
   list_all filter_respected (effects (snd (enter_table e t c ou rid rtab w)))"
  by (simp add: enter_table_def Let_def)

lemma process_tables_effects:
  assumes "list_all filter_respected (effects w0)"
  shows "list_all filter_respected (effects (snd (process_tables e cl rid rtab ou w0)))"
proof -
  obtain programs w1 where e1: "enter_table e Programs False ou rid rtab w0 = (programs, w1)"
    by (cases "enter_table e Programs False ou rid rtab w0")
  obtain x1 w2 n1 where l1: "programs_loop e cl programs w1 0 = (x1, w2, n1)"
    by (cases "programs_loop e cl programs w1 0")
  obtain stats w3 where e2: "enter_table e Ic_program_stats True ou rid rtab w2 = (stats, w3)"
    by (cases "enter_table e Ic_program_stats True ou rid rtab w2")
  obtain x2 w4 n2 where l2: "filtered_loop e cl Ic_program_stats stats w3 0 = (x2, w4, n2)"
    by (cases "filtered_loop e cl Ic_program_stats stats w3 0")
  obtain cases w5 where e3: "enter_table e Cases True ou rid rtab w4 = (cases, w5)"
    by (cases "enter_table e Cases True ou rid rtab w4")
  obtain x3 w6 n3 where l3: "filtered_loop e cl Cases cases w5 0 = (x3, w6, n3)"
    by (cases "filtered_loop e cl Cases cases w5 0")
  have f1: "list_all filter_respected (effects w1)"
    using enter_table_effects [OF assms, of e Programs False ou rid rtab] e1 by simp
  have f2: "list_all filter_respected (effects w2)"
    using programs_loop_effects [OF f1, of e cl programs 0] l1 by simp
  have f3: "list_all filter_respected (effects w3)"
    using enter_table_effects [OF f2, of e Ic_program_stats True ou rid rtab] e2 by simp
  have f4: "list_all filter_respected (effects w4)"
    using filtered_loop_effects [OF f3, of e cl Ic_program_stats stats 0] l2 by simp
  have f5: "list_all filter_respected (effects w5)"
    using enter_table_effects [OF f4, of e Cases True ou rid rtab] e3 by simp
  have f6: "list_all filter_respected (effects w6)"
    using filtered_loop_effects [OF f5, of e cl Cases cases 0] l3 by simp
  show ?thesis
    using f2 f4 f6
    by (simp add: process_tables_def e1 l1 e2 l2 e3 l3 completed_def split: loop_exit.splits)
qed

lemma run_pipeline_effects:
  "list_all filter_respected (effects (snd (run_pipeline e rid rtab ou d ps)))"
proof -
  have "list_all filter_respected (effects (started d ps))" by (simp add: started_def)
  from process_tables_effects [OF this]
  show ?thesis
    by (simp add: run_pipeline_def not_running_def started_def
             split: query_result.splits option.splits)
qed

text \<open>
  Claim C2, as stated for all three kinds, at the primary kind: the loop over
  \<open>programs\<close> has no eligibility filter. A primary row named \<open>Faculty of Engineering\<close>,
  which the filter of the other two loops skips, is passed to the matcher.
\<close>

theorem filter_before_matcher_primary_counterexample:
  "skipped ''Faculty of Engineering'' \<and>
   Match Programs 1 ''Faculty of Engineering''
     \<in> set (effects (snd (run_pipeline (quiet_env (Data (Some one_entry_catalog))) None None True
                 (tables [named_row 1 ''Faculty of Engineering'' None] [] []) idle_state)))"
  by code_simp

text \<open>
  Claim C2, amended to the statistic and case kinds. In every run, whatever the store,
  the options and the control calls, a name that the matcher is called on from the loop
  of \<open>ic_program_stats\<close> or of \<open>cases\<close> is not empty, is not a short label (at most 3
  whitespace-separated tokens and a denylist word in it), and does not start with
  \<open>faculty of\<close>, \<open>school of\<close>, \<open>college of\<close> or \<open>department of\<close> in lower case: no
  record the filter skips reaches the matcher.
\<close>

theorem filter_before_matcher:
  assumes "Match t i n
             \<in> set (effects (snd (run_pipeline e resume_from_id resume_from_table only_unmatched d ps)))"
    and "t = Ic_program_stats \<or> t = Cases"
  shows "n \<noteq> [] \<and>
         \<not> (length (split n) \<le> 3 \<and>
            list_ex (\<lambda>keyword. contains keyword (lower n)) invalid_keywords) \<and>
         \<not> startswith_any (lower n)
              [''faculty of'', ''school of'', ''college of'', ''department of'']"
proof -
  from run_pipeline_effects [of e resume_from_id resume_from_table only_unmatched d ps] assms(1)
  have "filter_respected (Match t i n)"
    by (auto simp: list_all_iff)
  with assms(2) have "\<not> skipped n" by auto
  then show ?thesis
    by (simp add: skipped_def short_label_def unit_prefix_def)
qed

theorem filter_before_matcher_witness:
  "Match Ic_program_stats 2 ''MSc Computer Science''
     \<in> set (effects (snd (run_pipeline (quiet_env (Data (Some one_entry_catalog))) None None True
                 (tables [] [named_row 1 ''School of Medicine'' None,
                             named_row 2 ''MSc Computer Science'' None] [])
                 idle_state))) \<and>
   ''MSc Computer Science'' \<noteq> [] \<and>
   \<not> (length (split ''MSc Computer Science'') \<le> 3 \<and>
      list_ex (\<lambda>keyword. contains keyword (lower ''MSc Computer Science'')) invalid_keywords) \<and>
   \<not> startswith_any (lower ''MSc Computer Science'')
        [''faculty of'', ''school of'', ''college of'', ''department of'']"
proof -
  have h: "Match Ic_program_stats 2 ''MSc Computer Science''
     \<in> set (effects (snd (run_pipeline (quiet_env (Data (Some one_entry_catalog))) None None True
                 (tables [] [named_row 1 ''School of Medicine'' None,
                             named_row 2 ''MSc Computer Science'' None] [])
                 idle_state)))"
    by code_simp
  from filter_before_matcher [OF h] h show ?thesis by simp
qed

text \<open>
  Claim C8, as stated: the longer name does not reach the matcher. A run over a
  statistic row and a case row named \<open>Faculty of Engineering and Advanced Computing\<close>
  queries the catalog and the three tables and calls the matcher on nothing.
\<close>

theorem denylist_examples_counterexample:
  "effects (snd (run_pipeline (quiet_env (Data (Some one_entry_catalog))) None None True
      (tables []
         [named_row 1 ''Faculty of Engineering and Advanced Computing'' None]
         [named_row 1 ''Faculty of Engineering and Advanced Computing'' None])
      idle_state))
   = [Select_canonical, Select Programs, Select Ic_program_stats, Select Cases]"
  by code_simp

text \<open>
  Claim C8, amended. \<open>Faculty of Engineering\<close> has 3 tokens and the denylist word
  \<open>faculty\<close>: the short-label rule skips it. \<open>Faculty of Engineering and Advanced
  Computing\<close> has 6 tokens: the short-label rule does not apply, but the name starts with
  \<open>faculty of\<close> and the prefix rule skips it. In no run does the statistic or the case
  loop call the matcher on either name.
\<close>

theorem denylist_examples:
  "length (split ''Faculty of Engineering'') = 3 \<and>
   short_label ''Faculty of Engineering'' \<and>
   length (split ''Faculty of Engineering and Advanced Computing'') = 6 \<and>
   \<not> short_label ''Faculty of Engineering and Advanced Computing'' \<and>
   unit_prefix ''Faculty of Engineering and Advanced Computing'' \<and>
   Match Ic_program_stats i ''Faculty of Engineering''
     \<notin> set (effects (snd (run_pipeline e resume_from_id resume_from_table only_unmatched d ps))) \<and>
   Match Cases i ''Faculty of Engineering''
     \<notin> set (effects (snd (run_pipeline e resume_from_id resume_from_table only_unmatched d ps))) \<and>
   Match Ic_program_stats i ''Faculty of Engineering and Advanced Computing''
     \<notin> set (effects (snd (run_pipeline e resume_from_id resume_from_table only_unmatched d ps))) \<and>
   Match Cases i ''Faculty of Engineering and Advanced Computing''
     \<notin> set (effects (snd (run_pipeline e resume_from_id resume_from_table only_unmatched d ps)))"
proof -
  have a: "length (split ''Faculty of Engineering'') = 3" by code_simp
  have b: "short_label ''Faculty of Engineering''" by code_simp
  have c: "length (split ''Faculty of Engineering and Advanced Computing'') = 6" by code_simp
  have d: "\<not> short_label ''Faculty of Engineering and Advanced Computing''" by code_simp
  have f: "unit_prefix ''Faculty of Engineering and Advanced Computing''" by code_simp
  have never: "Match t i n \<notin> set (effects (snd (run_pipeline e resume_from_id resume_from_table
                 only_unmatched d ps)))"
    if "skipped n" "t \<noteq> Programs" for t n
  proof
    assume "Match t i n \<in> set (effects (snd (run_pipeline e resume_from_id resume_from_table
                 only_unmatched d ps)))"
    with run_pipeline_effects [of e resume_from_id resume_from_table only_unmatched d ps]
    have "filter_respected (Match t i n)" by (auto simp: list_all_iff)
    with that show False by simp
  qed
  have s1: "skipped ''Faculty of Engineering''" using b by (simp add: skipped_def)
  have s2: "skipped ''Faculty of Engineering and Advanced Computing''"
    using f by (simp add: skipped_def)
  show ?thesis
    using a b c d f never [OF s1] never [OF s2] by simp
qed

subsection \<open>The catalog\<close>

text \<open>
  Claim C3, as stated with one status for both failures: a catalog that is loaded but
  empty ends the run with status \<open>stopped\<close>, a catalog query that raises with status
  \<open>error\<close>. The two statuses differ, so they are not both the failed one.
\<close>

theorem run_pipeline_catalog_abort_counterexample:
  "fst (run_pipeline (quiet_env (Data (Some []))) None None True (tables [] [] []) idle_state)
     = Returns (aborted ''stopped'') \<and>
   fst (run_pipeline (quiet_env Raises) None None True (tables [] [] []) idle_state)
     = Returns (aborted ''error'') \<and>
   status (aborted ''stopped'') \<noteq> status (aborted ''error'')"
  by (simp add: run_pipeline_def quiet_env_def idle_state_def aborted_def not_running_def)

text \<open>
  Claim C3, amended in the status. When the pipeline is not already running and the
  catalog query raises, or gives \<open>None\<close> or the empty list, the run returns with status
  \<open>error\<close> in the first case and \<open>stopped\<close> in the other two, with all three update
  counts 0; the store is unchanged, the only effect is the query of the catalog (no
  source table is read, no row matched or written), and \<open>is_running\<close> is cleared.
\<close>

theorem run_pipeline_catalog_abort:
  assumes "\<not> is_running ps"
    and "canonical_programs_query e = Raises \<or> canonical_programs_query e = Data None \<or>
         canonical_programs_query e = Data (Some [])"
  shows "\<exists>r w. run_pipeline e resume_from_id resume_from_table only_unmatched d ps = (Returns r, w) \<and>
           status r = (if canonical_programs_query e = Raises then ''error'' else ''stopped'') \<and>
           programs_updated r = 0 \<and> stats_updated r = 0 \<and> cases_updated r = 0 \<and>
           db w = d \<and> effects w = [Select_canonical] \<and> \<not> is_running (pstate w)"
  using assms
  by (auto simp: run_pipeline_def aborted_def not_running_def started_def)

theorem run_pipeline_catalog_abort_witness:
  "\<not> is_running idle_state \<and>
   canonical_programs_query (quiet_env Raises) = Raises \<and>
   (\<exists>r w. run_pipeline (quiet_env Raises) None None True
             (tables [named_row 1 ''Computer Science'' None] [] []) idle_state = (Returns r, w) \<and>
           status r = ''error'' \<and>
           programs_updated r = 0 \<and> stats_updated r = 0 \<and> cases_updated r = 0 \<and>
           db w = tables [named_row 1 ''Computer Science'' None] [] [] \<and>
           effects w = [Select_canonical] \<and> \<not> is_running (pstate w))"
proof -
  have a: "\<not> is_running idle_state" by (simp add: idle_state_def)
  have b: "canonical_programs_query (quiet_env Raises) = Raises" by (simp add: quiet_env_def)
  from run_pipeline_catalog_abort [OF a, of "quiet_env Raises" None None True
         "tables [named_row 1 ''Computer Science'' None] [] []"] a b
  show ?thesis by simp
qed

subsection \<open>Two runs in a row\<close>

lemma truthy_Some: "truthy c \<Longrightarrow> c \<noteq> None"
  by (cases c) auto

lemma filtered_loop_block:
  "loop_head e t (row_id s) (pstate w) = None \<Longrightarrow>
   filtered_loop e cl t (s # rest) w n =
     (Blocked, w\<lparr>pstate := controls_applied e t (row_id s) (pstate w)\<rparr>, n)"
  by simp

lemma filtered_loop_skip:
  "loop_head e t (row_id s) (pstate w) = Some ps \<Longrightarrow> stays_unmatched e cl s \<Longrightarrow>
   filtered_loop e cl t (s # rest) w n =
     filtered_loop e cl t rest
       (w\<lparr>pstate := ps,
          effects := effects w @
            (if skipped (or_empty (row_name s)) then []
             else [Match t (row_id s) (or_empty (row_name s))])\<rparr>) n"
  by (auto simp: Let_def skipped_def stays_unmatched_def)

lemma filtered_loop_raise:
  "loop_head e t (row_id s) (pstate w) = Some ps \<Longrightarrow> \<not> stays_unmatched e cl s \<Longrightarrow>
   update_raises e t (row_id s) \<Longrightarrow>
   filtered_loop e cl t (s # rest) w n =
     filtered_loop e cl t rest
       (w\<lparr>pstate := ps,
          effects := effects w @
            [Match t (row_id s) (or_empty (row_name s)), Update t (row_id s)]\<rparr>) n"
  by (simp add: Let_def skipped_def stays_unmatched_def)

lemma filtered_loop_write:
  "loop_head e t (row_id s) (pstate w) = Some ps \<Longrightarrow> \<not> stays_unmatched e cl s \<Longrightarrow>
   \<not> update_raises e t (row_id s) \<Longrightarrow>
   filtered_loop e cl t (s # rest) w n =
     filtered_loop e cl t rest
       (w\<lparr>pstate := ps,
          effects := effects w @
            [Match t (row_id s) (or_empty (row_name s)), Update t (row_id s)],
          db := (db w)(t := update_rows
                  (\<lambda>r. r\<lparr>row_canonical_program_id :=
                           map_to_canonical (env_partial_ratio e) (env_llm e)
                             (or_empty (row_name s)) cl\<rparr>)
                  (row_id s) (db w t))\<rparr>) (n + 1)"
  by (simp add: Let_def skipped_def stays_unmatched_def)

lemma programs_loop_block:
  "loop_head e Programs (row_id p) (pstate w) = None \<Longrightarrow>
   programs_loop e cl (p # rest) w n =
     (Blocked, w\<lparr>pstate := controls_applied e Programs (row_id p) (pstate w)\<rparr>, n)"
  by simp

lemma programs_loop_raise:
  "loop_head e Programs (row_id p) (pstate w) = Some ps \<Longrightarrow>
   update_raises e Programs (row_id p) \<Longrightarrow>
   programs_loop e cl (p # rest) w n =
     programs_loop e cl rest
       (w\<lparr>pstate := ps,
          effects := effects w @
            [Match Programs (row_id p) (or_empty (row_name p)),
             Classify (row_id p) (or_empty (row_name p)),
             Update Programs (row_id p)]\<rparr>) n"
  by (simp add: Let_def)

lemma programs_loop_write:
  "loop_head e Programs (row_id p) (pstate w) = Some ps \<Longrightarrow>
   \<not> update_raises e Programs (row_id p) \<Longrightarrow>
   \<exists>f. programs_loop e cl (p # rest) w n =
     programs_loop e cl rest
       (w\<lparr>pstate := ps,
          effects := effects w @
            [Match Programs (row_id p) (or_empty (row_name p)),
             Classify (row_id p) (or_empty (row_name p)),
             Update Programs (row_id p)],
          db := (db w)(Programs := f)\<rparr>) (n + 1)"
  by (simp add: Let_def) blast

declare programs_loop.simps(2) [simp del] filtered_loop.simps(2) [simp del]

lemma programs_loop_frame:
  "t \<noteq> Programs \<Longrightarrow> db (fst (snd (programs_loop e cl rows w n))) t = db w t"
proof (induction rows arbitrary: w n)
  case Nil
  then show ?case by simp
next
  case (Cons p rest)
  show ?case
  proof (cases "loop_head e Programs (row_id p) (pstate w)")
    case None
    then show ?thesis by (simp add: programs_loop_block)
  next
    case (Some ps)
    show ?thesis
    proof (cases "update_raises e Programs (row_id p)")
      case True
      with Some Cons show ?thesis by (simp add: programs_loop_raise)
    next
      case False
      from programs_loop_write [OF Some False, of cl rest n] obtain f where
        "programs_loop e cl (p # rest) w n =
           programs_loop e cl rest
             (w\<lparr>pstate := ps,
                effects := effects w @
                  [Match Programs (row_id p) (or_empty (row_name p)),
                   Classify (row_id p) (or_empty (row_name p)),
                   Update Programs (row_id p)],
                db := (db w)(Programs := f)\<rparr>) (n + 1)" by blast
      with Cons show ?thesis by simp
    qed
  qed
qed

lemma programs_loop_count:
  "programs_loop e cl rows w n = (Finished, w', n') \<Longrightarrow>
   n' = n + length (filter (\<lambda>p. \<not> update_raises e Programs (row_id p)) rows)"
proof (induction rows arbitrary: w n)
  case Nil
  then show ?case by simp
next
  case (Cons p rest)
  show ?case
  proof (cases "loop_head e Programs (row_id p) (pstate w)")
    case None
    with Cons.prems show ?thesis by (simp add: programs_loop_block)
  next
    case (Some ps)
    show ?thesis
    proof (cases "update_raises e Programs (row_id p)")
      case True
      from programs_loop_raise [OF Some True, of cl rest n] obtain w1 where
        "programs_loop e cl (p # rest) w n = programs_loop e cl rest w1 n" by simp
      with Cons.prems have "programs_loop e cl rest w1 n = (Finished, w', n')" by simp
      from Cons.IH [OF this] True show ?thesis by simp
    next
      case False
      from programs_loop_write [OF Some False, of cl rest n] obtain w1 where
        "programs_loop e cl (p # rest) w n = programs_loop e cl rest w1 (n + 1)" by blast
      with Cons.prems have "programs_loop e cl rest w1 (n + 1) = (Finished, w', n')" by simp
      from Cons.IH [OF this] False show ?thesis by simp
    qed
  qed
qed

lemma filtered_loop_frame:
  "t' \<noteq> t \<Longrightarrow> db (fst (snd (filtered_loop e cl t rows w n))) t' = db w t'"
proof (induction rows arbitrary: w n)
  case Nil
  then show ?case by simp
next
  case (Cons s rest)
  show ?case
  proof (cases "loop_head e t (row_id s) (pstate w)")
    case None
    then show ?thesis by (simp add: filtered_loop_block)
  next
    case (Some ps)
    consider "stays_unmatched e cl s"
      | "\<not> stays_unmatched e cl s" "update_raises e t (row_id s)"
      | "\<not> stays_unmatched e cl s" "\<not> update_raises e t (row_id s)" by blast
    then show ?thesis
    proof cases
      case 1
      with Some Cons show ?thesis by (simp add: filtered_loop_skip)
    next
      case 2
      with Some Cons show ?thesis by (simp add: filtered_loop_raise)
    next
      case 3
      with Some Cons show ?thesis by (simp add: filtered_loop_write)
    qed
  qed
qed

lemma filtered_loop_noop:
  "\<forall>s\<in>set rows. stays_unmatched e cl s \<Longrightarrow>
   snd (snd (filtered_loop e cl t rows w n)) = n \<and>
   db (fst (snd (filtered_loop e cl t rows w n))) = db w"
proof (induction rows arbitrary: w n)
  case Nil
  then show ?case by simp
next
  case (Cons s rest)
  show ?case
  proof (cases "loop_head e t (row_id s) (pstate w)")
    case None
    then show ?thesis by (simp add: filtered_loop_block)
  next
    case (Some ps)
    from Cons.prems have "stays_unmatched e cl s" "\<forall>s\<in>set rest. stays_unmatched e cl s"
      by simp_all
    with Some Cons.IH show ?thesis by (simp add: filtered_loop_skip)
  qed
qed

lemma filtered_loop_origin:
  "r' \<in> set (db (fst (snd (filtered_loop e cl t rows w n))) t) \<Longrightarrow>
   \<exists>r\<in>set (db w t). row_id r = row_id r' \<and> row_name r = row_name r' \<and>
      (row_canonical_program_id r' = None \<longrightarrow> row_canonical_program_id r = None)"
proof (induction rows arbitrary: w n)
  case Nil
  then have "r' \<in> set (db w t)" by simp
  then show ?case by (intro bexI [where x = r']) simp_all
next
  case (Cons s rest)
  show ?case
  proof (cases "loop_head e t (row_id s) (pstate w)")
    case None
    from Cons.prems have "r' \<in> set (db w t)"
      by (simp add: filtered_loop_block [OF None])
    then show ?thesis by (intro bexI [where x = r']) simp_all
  next
    case (Some ps)
    let ?name = "or_empty (row_name s)"
    let ?cid = "map_to_canonical (env_partial_ratio e) (env_llm e) ?name cl"
    consider "stays_unmatched e cl s"
      | "\<not> stays_unmatched e cl s" "update_raises e t (row_id s)"
      | "\<not> stays_unmatched e cl s" "\<not> update_raises e t (row_id s)" by blast
    then show ?thesis
    proof cases
      case 1
      define w1 where "w1 = w\<lparr>pstate := ps, effects := effects w @
              (if skipped ?name then [] else [Match t (row_id s) ?name])\<rparr>"
      have step: "filtered_loop e cl t (s # rest) w n = filtered_loop e cl t rest w1 n"
        unfolding w1_def by (rule filtered_loop_skip [OF Some 1])
      have same: "db w1 = db w" by (simp add: w1_def)
      have "r' \<in> set (db (fst (snd (filtered_loop e cl t rest w1 n))) t)"
        using Cons.prems by (simp only: step)
      from Cons.IH [OF this] show ?thesis by (simp only: same)
    next
      case 2
      define w1 where "w1 = w\<lparr>pstate := ps, effects := effects w @
              [Match t (row_id s) ?name, Update t (row_id s)]\<rparr>"
      have step: "filtered_loop e cl t (s # rest) w n = filtered_loop e cl t rest w1 n"
        unfolding w1_def by (rule filtered_loop_raise [OF Some 2])
      have same: "db w1 = db w" by (simp add: w1_def)
      have "r' \<in> set (db (fst (snd (filtered_loop e cl t rest w1 n))) t)"
        using Cons.prems by (simp only: step)
      from Cons.IH [OF this] show ?thesis by (simp only: same)
    next
      case 3
      define upd :: "row \<Rightarrow> row" where "upd = (\<lambda>r. if row_id r = row_id s
                                     then r\<lparr>row_canonical_program_id := ?cid\<rparr> else r)"
      define w1 where "w1 = w\<lparr>pstate := ps,
          effects := effects w @ [Match t (row_id s) ?name, Update t (row_id s)],
          db := (db w)(t := update_rows (\<lambda>r. r\<lparr>row_canonical_program_id := ?cid\<rparr>)
                              (row_id s) (db w t))\<rparr>"
      have step: "filtered_loop e cl t (s # rest) w n = filtered_loop e cl t rest w1 (n + 1)"
        unfolding w1_def by (rule filtered_loop_write [OF Some 3])
      have "r' \<in> set (db (fst (snd (filtered_loop e cl t rest w1 (n + 1)))) t)"
        using Cons.prems by (simp only: step)
      from Cons.IH [OF this] obtain r1 where
        r1: "r1 \<in> set (db w1 t)" "row_id r1 = row_id r'" "row_name r1 = row_name r'"
            "row_canonical_program_id r' = None \<longrightarrow> row_canonical_program_id r1 = None"
        by (elim bexE conjE)
      have "db w1 t = map upd (db w t)"
        by (simp add: w1_def update_rows_def upd_def)
      with r1(1) obtain r where r: "r \<in> set (db w t)" "r1 = upd r"
        by auto
      have cid: "?cid \<noteq> None" using 3(1) truthy_Some by (auto simp: stays_unmatched_def)
      have goal: "row_id r = row_id r' \<and> row_name r = row_name r' \<and>
            (row_canonical_program_id r' = None \<longrightarrow> row_canonical_program_id r = None)"
      proof (cases "row_id r = row_id s")
        case True
        then have e1: "r1 = r\<lparr>row_canonical_program_id := ?cid\<rparr>"
          using r(2) by (simp add: upd_def)
        have p: "row_id r1 = row_id r" "row_name r1 = row_name r"
                "row_canonical_program_id r1 = ?cid"
          by (simp_all add: e1)
        from p(3) cid r1(4) have "row_canonical_program_id r' \<noteq> None" by metis
        with p(1,2) r1(2,3) show ?thesis by metis
      next
        case False
        then have "r1 = r" using r(2) by (simp add: upd_def)
        with r1(2,3,4) show ?thesis by blast
      qed
      show ?thesis
      proof (rule bexI [where x = r])
        show "row_id r = row_id r' \<and> row_name r = row_name r' \<and>
            (row_canonical_program_id r' = None \<longrightarrow> row_canonical_program_id r = None)"
          by (fact goal)
        show "r \<in> set (db w t)" by (fact r(1))
      qed
    qed
  qed
qed

lemma filtered_loop_resolves:
  assumes "\<forall>i. \<not> update_raises e t i"
  shows "filtered_loop e cl t rows w n = (Finished, w', n') \<Longrightarrow> s \<in> set rows \<Longrightarrow>
         \<not> stays_unmatched e cl s \<Longrightarrow> r' \<in> set (db w' t) \<Longrightarrow> row_id r' = row_id s \<Longrightarrow>
         row_canonical_program_id r' \<noteq> None"
proof (induction rows arbitrary: w n)
  case Nil
  then show ?case by simp
next
  case (Cons s0 rest)
  show ?case
  proof (cases "loop_head e t (row_id s0) (pstate w)")
    case None
    with Cons.prems(1) show ?thesis by (simp add: filtered_loop_block)
  next
    case (Some ps)
    let ?name = "or_empty (row_name s0)"
    let ?cid = "map_to_canonical (env_partial_ratio e) (env_llm e) ?name cl"
    show ?thesis
    proof (cases "stays_unmatched e cl s0")
      case True
      from True Cons.prems(2,3) have in_rest: "s \<in> set rest" by auto
      from Cons.prems(1) have
        "filtered_loop e cl t rest
           (w\<lparr>pstate := ps, effects := effects w @
              (if skipped ?name then [] else [Match t (row_id s0) ?name])\<rparr>) n
         = (Finished, w', n')"
        by (simp add: filtered_loop_skip [OF Some True])
      from Cons.IH [OF this in_rest Cons.prems(3,4,5)] show ?thesis .
    next
      case False
      have nr: "\<not> update_raises e t (row_id s0)" using assms by simp
      define w1 where "w1 = w\<lparr>pstate := ps,
          effects := effects w @ [Match t (row_id s0) ?name, Update t (row_id s0)],
          db := (db w)(t := update_rows (\<lambda>r. r\<lparr>row_canonical_program_id := ?cid\<rparr>)
                              (row_id s0) (db w t))\<rparr>"
      have step: "filtered_loop e cl t (s0 # rest) w n = filtered_loop e cl t rest w1 (n + 1)"
        unfolding w1_def by (rule filtered_loop_write [OF Some False nr])
      have rest: "filtered_loop e cl t rest w1 (n + 1) = (Finished, w', n')"
        using step Cons.prems(1) by simp
      show ?thesis
      proof (cases "row_id s = row_id s0")
        case True
        have w': "w' = fst (snd (filtered_loop e cl t rest w1 (n + 1)))" using rest by simp
        from filtered_loop_origin [of r' e cl t rest w1 "n + 1"] Cons.prems(4) w'
        obtain r1 where r1: "r1 \<in> set (db w1 t)" "row_id r1 = row_id r'"
            "row_canonical_program_id r' = None \<longrightarrow> row_canonical_program_id r1 = None"
          by auto
        have cid: "?cid \<noteq> None" using False truthy_Some by (auto simp: stays_unmatched_def)
        define upd :: "row \<Rightarrow> row" where "upd = (\<lambda>r. if row_id r = row_id s0
                                       then r\<lparr>row_canonical_program_id := ?cid\<rparr> else r)"
        have "db w1 t = map upd (db w t)"
          by (simp add: w1_def update_rows_def upd_def)
        with r1(1) obtain r where r: "r1 = upd r"
          by auto
        have "row_canonical_program_id r1 \<noteq> None"
        proof (cases "row_id r = row_id s0")
          case True
          with r cid show ?thesis by (simp add: upd_def)
        next
          case False
          with r r1(2) \<open>row_id s = row_id s0\<close> Cons.prems(5) show ?thesis
            by (simp add: upd_def)
        qed
        with r1(3) show ?thesis by blast
      next
        case False
        with Cons.prems(2) have "s \<in> set rest" by auto
        from Cons.IH [OF rest this Cons.prems(3,4,5)] show ?thesis .
      qed
    qed
  qed
qed


lemma enter_table_rows:
  "enter_table e t c ou rid rtab w = (rows, w') \<Longrightarrow>
   rows = select_rows e (db w) t ou rid rtab \<and> db w' = db w"
  by (auto simp: enter_table_def Let_def)

lemma select_rows_subset:
  "r \<in> set (select_rows e d t ou rid rtab) \<Longrightarrow> r \<in> set (d t) \<and> selected t ou rid rtab r"
  by (simp add: select_rows_def split: if_splits)

lemma select_rows_member:
  "\<not> select_raises e t \<Longrightarrow> r \<in> set (d t) \<Longrightarrow> selected t ou rid rtab r \<Longrightarrow>
   r \<in> set (select_rows e d t ou rid rtab)"
  by (simp add: select_rows_def)

lemma selected_cong:
  "row_id r = row_id r' \<Longrightarrow> row_canonical_program_id r = row_canonical_program_id r' \<Longrightarrow>
   selected t ou rid rtab r = selected t ou rid rtab r'"
  unfolding selected_def by (cases rid) simp_all

lemma stays_unmatched_cong:
  "row_name r = row_name r' \<Longrightarrow> env_partial_ratio e = env_partial_ratio e' \<Longrightarrow>
   env_llm e = env_llm e' \<Longrightarrow> stays_unmatched e cl r = stays_unmatched e' cl r'"
  by (simp add: stays_unmatched_def)

lemma filtered_loop_leaves_unmatched:
  assumes loop: "filtered_loop e cl t rows w n = (Finished, w', n')"
    and rows: "rows = select_rows e (db w) t True rid rtab"
    and reads: "\<not> select_raises e t"
    and writes: "\<forall>i. \<not> update_raises e t i"
    and r': "r' \<in> set (db w' t)" "selected t True rid rtab r'"
  shows "stays_unmatched e cl r'"
proof (rule ccontr)
  assume no: "\<not> stays_unmatched e cl r'"
  have w': "w' = fst (snd (filtered_loop e cl t rows w n))" using loop by simp
  have "r' \<in> set (db (fst (snd (filtered_loop e cl t rows w n))) t)"
    using r'(1) w' by simp
  from filtered_loop_origin [OF this] obtain r where
    r: "r \<in> set (db w t)" "row_id r = row_id r'" "row_name r = row_name r'"
       "row_canonical_program_id r' = None \<longrightarrow> row_canonical_program_id r = None"
    by (elim bexE conjE)
  have none: "row_canonical_program_id r' = None" using r'(2) by (simp add: selected_def)
  with r(4) have eq: "row_canonical_program_id r = row_canonical_program_id r'" by simp
  from selected_cong [OF r(2) eq, of t True rid rtab] r'(2)
  have "selected t True rid rtab r" by simp
  with reads r(1) have mem: "r \<in> set rows" by (simp add: rows select_rows_member)
  have "stays_unmatched e cl r = stays_unmatched e cl r'"
    by (rule stays_unmatched_cong [OF r(3) refl refl])
  with no have "\<not> stays_unmatched e cl r" by simp
  from filtered_loop_resolves [OF writes loop mem this r'(1)] r(2) none
  show False by simp
qed

lemma process_tables_Returns:
  assumes "process_tables e cl rid rtab ou w0 = (Returns r, w)"
  shows "\<exists>programs w1 w2 n1 stats w3 w4 n2 cases w5 w6 n3.
     enter_table e Programs False ou rid rtab w0 = (programs, w1) \<and>
     programs_loop e cl programs w1 0 = (Finished, w2, n1) \<and>
     enter_table e Ic_program_stats True ou rid rtab w2 = (stats, w3) \<and>
     filtered_loop e cl Ic_program_stats stats w3 0 = (Finished, w4, n2) \<and>
     enter_table e Cases True ou rid rtab w4 = (cases, w5) \<and>
     filtered_loop e cl Cases cases w5 0 = (Finished, w6, n3) \<and>
     status r = ''ok'' \<and> programs_updated r = n1 \<and> stats_updated r = n2 \<and>
     cases_updated r = n3 \<and> w = completed w6"
proof -
  obtain programs w1 where e1: "enter_table e Programs False ou rid rtab w0 = (programs, w1)"
    by (cases "enter_table e Programs False ou rid rtab w0")
  obtain x1 w2 n1 where l1: "programs_loop e cl programs w1 0 = (x1, w2, n1)"
    by (cases "programs_loop e cl programs w1 0")
  obtain stats w3 where e2: "enter_table e Ic_program_stats True ou rid rtab w2 = (stats, w3)"
    by (cases "enter_table e Ic_program_stats True ou rid rtab w2")
  obtain x2 w4 n2 where l2: "filtered_loop e cl Ic_program_stats stats w3 0 = (x2, w4, n2)"
    by (cases "filtered_loop e cl Ic_program_stats stats w3 0")
  obtain cases w5 where e3: "enter_table e Cases True ou rid rtab w4 = (cases, w5)"
    by (cases "enter_table e Cases True ou rid rtab w4")
  obtain x3 w6 n3 where l3: "filtered_loop e cl Cases cases w5 0 = (x3, w6, n3)"
    by (cases "filtered_loop e cl Cases cases w5 0")
  from assms have x: "x1 = Finished \<and> x2 = Finished \<and> x3 = Finished \<and>
      status r = ''ok'' \<and> programs_updated r = n1 \<and> stats_updated r = n2 \<and>
      cases_updated r = n3 \<and> w = completed w6"
    by (cases x1; cases x2; cases x3)
       (auto simp: process_tables_def e1 l1 e2 l2 e3 l3)
  with e1 l1 e2 l2 e3 l3 show ?thesis by simp
qed

lemma run_pipeline_Returns:
  assumes "run_pipeline e rid rtab ou d ps = (Returns r, w)"
  shows "(status r \<noteq> ''ok'' \<and> programs_updated r = 0 \<and> stats_updated r = 0 \<and>
          cases_updated r = 0) \<or>
         (\<exists>cl. canonical_programs_query e = Data (Some cl) \<and>
               process_tables e cl rid rtab ou (started d ps) = (Returns r, w))"
  using assms
  by (auto simp: run_pipeline_def aborted_def split: if_splits query_result.splits option.splits)



lemma started_db: "db (started d ps) = d"
  by (simp add: started_def)

lemma completed_db: "db (completed w) = db w"
  by (simp add: completed_def)

text \<open>
  Claim C7, amended. Let a run with \<open>only_unmatched\<close> return with status \<open>ok\<close>, with
  no failing query or update during it, and let a second run with \<open>only_unmatched\<close>
  and the same resume options start on the store the first one left, with the same
  catalog and the same answers of the similarity score and of the oracle. If the second
  run returns, its \<open>stats_updated\<close> and \<open>cases_updated\<close> are 0. Its
  \<open>programs_updated\<close>, when it runs through, is the number of primary rows that are
  still selected (still without canonical id) and whose update does not fail: the loop
  over \<open>programs\<close> writes the category of every row it visits and counts that write.
\<close>

theorem rerun_updates:
  assumes run1: "run_pipeline e1 resume_from_id resume_from_table True d ps = (Returns r1, w1)"
    and ok1: "status r1 = ''ok''"
    and reads: "\<forall>t. \<not> select_raises e1 t"
    and writes: "\<forall>t i. \<not> update_raises e1 t i"
    and same_pr: "env_partial_ratio e2 = env_partial_ratio e1"
    and same_llm: "env_llm e2 = env_llm e1"
    and same_cat: "canonical_programs_query e2 = canonical_programs_query e1"
    and run2: "run_pipeline e2 resume_from_id resume_from_table True (db w1) ps2 = (Returns r2, w2)"
  shows "stats_updated r2 = 0 \<and> cases_updated r2 = 0 \<and>
         (status r2 = ''ok'' \<longrightarrow>
            programs_updated r2 =
              length (filter (\<lambda>p. \<not> update_raises e2 Programs (row_id p))
                        (select_rows e2 (db w1) Programs True resume_from_id resume_from_table)))"
proof -
  let ?rid = resume_from_id and ?rtab = resume_from_table
  from run_pipeline_Returns [OF run1] ok1 obtain cl where
    cat1: "canonical_programs_query e1 = Data (Some cl)" and
    pt1: "process_tables e1 cl ?rid ?rtab True (started d ps) = (Returns r1, w1)"
    by (elim disjE conjE exE) simp
  from process_tables_Returns [OF pt1] obtain programs a1 a2 n1 stats a3 a4 n2 cases a5 a6 n3 where
    A1: "enter_table e1 Programs False True ?rid ?rtab (started d ps) = (programs, a1)" and
    A2: "programs_loop e1 cl programs a1 0 = (Finished, a2, n1)" and
    A3: "enter_table e1 Ic_program_stats True True ?rid ?rtab a2 = (stats, a3)" and
    A4: "filtered_loop e1 cl Ic_program_stats stats a3 0 = (Finished, a4, n2)" and
    A5: "enter_table e1 Cases True True ?rid ?rtab a4 = (cases, a5)" and
    A6: "filtered_loop e1 cl Cases cases a5 0 = (Finished, a6, n3)" and
    A7: "w1 = completed a6"
    by (elim exE conjE)
  have dbw1: "db w1 = db a6" by (simp add: A7 completed_db)
  have a6: "a6 = fst (snd (filtered_loop e1 cl Cases cases a5 0))" using A6 by simp
  have "db a6 Ic_program_stats = db a5 Ic_program_stats"
    unfolding a6 by (rule filtered_loop_frame) simp
  also have "db a5 = db a4" using enter_table_rows [OF A5] by simp
  finally have stats_final: "db w1 Ic_program_stats = db a4 Ic_program_stats"
    by (simp add: dbw1)
  have rows_s: "stats = select_rows e1 (db a3) Ic_program_stats True ?rid ?rtab"
    using enter_table_rows [OF A3] by simp
  have rows_c: "cases = select_rows e1 (db a5) Cases True ?rid ?rtab"
    using enter_table_rows [OF A5] by simp
  have rd: "\<not> select_raises e1 t" for t using reads by simp
  have wr: "\<forall>i. \<not> update_raises e1 t i" for t using writes by simp
  have unmatched_s: "stays_unmatched e1 cl r'"
    if "r' \<in> set (db w1 Ic_program_stats)" "selected Ic_program_stats True ?rid ?rtab r'" for r'
  proof -
    from that(1) have "r' \<in> set (db a4 Ic_program_stats)" by (simp add: stats_final)
    from filtered_loop_leaves_unmatched [OF A4 rows_s rd wr this that(2)] show ?thesis .
  qed
  have unmatched_c: "stays_unmatched e1 cl r'"
    if "r' \<in> set (db w1 Cases)" "selected Cases True ?rid ?rtab r'" for r'
  proof -
    from that(1) have "r' \<in> set (db a6 Cases)" by (simp add: dbw1)
    from filtered_loop_leaves_unmatched [OF A6 rows_c rd wr this that(2)] show ?thesis .
  qed
  have same_env: "stays_unmatched e2 cl r = stays_unmatched e1 cl r" for r
    by (rule stays_unmatched_cong [OF refl same_pr same_llm])
  from run_pipeline_Returns [OF run2] show ?thesis
  proof (elim disjE exE conjE)
    assume "status r2 \<noteq> ''ok''" "programs_updated r2 = 0" "stats_updated r2 = 0"
      "cases_updated r2 = 0"
    then show ?thesis by simp
  next
    fix cl2
    assume cat2: "canonical_programs_query e2 = Data (Some cl2)"
      and pt2: "process_tables e2 cl2 ?rid ?rtab True (started (db w1) ps2) = (Returns r2, w2)"
    have cl2: "cl2 = cl" using cat1 cat2 same_cat by simp
    from process_tables_Returns [OF pt2] obtain programs' b1 b2 m1 stats' b3 b4 m2 cases' b5 b6 m3
      where
      B1: "enter_table e2 Programs False True ?rid ?rtab (started (db w1) ps2) = (programs', b1)" and
      B2: "programs_loop e2 cl2 programs' b1 0 = (Finished, b2, m1)" and
      B3: "enter_table e2 Ic_program_stats True True ?rid ?rtab b2 = (stats', b3)" and
      B4: "filtered_loop e2 cl2 Ic_program_stats stats' b3 0 = (Finished, b4, m2)" and
      B5: "enter_table e2 Cases True True ?rid ?rtab b4 = (cases', b5)" and
      B6: "filtered_loop e2 cl2 Cases cases' b5 0 = (Finished, b6, m3)" and
      R1: "programs_updated r2 = m1" and R2: "stats_updated r2 = m2" and
      R3: "cases_updated r2 = m3"
      by (elim exE conjE)
    have rows_p': "programs' = select_rows e2 (db w1) Programs True ?rid ?rtab"
      using enter_table_rows [OF B1] by (simp add: started_db)
    have b1: "db b1 = db w1" using enter_table_rows [OF B1] by (simp add: started_db)
    from programs_loop_count [OF B2] have m1:
      "m1 = length (filter (\<lambda>p. \<not> update_raises e2 Programs (row_id p))
                      (select_rows e2 (db w1) Programs True ?rid ?rtab))"
      by (simp add: rows_p')
    have b2: "b2 = fst (snd (programs_loop e2 cl2 programs' b1 0))" using B2 by simp
    have b2_frame: "db b2 t = db w1 t" if "t \<noteq> Programs" for t
      unfolding b2 using programs_loop_frame [OF that, of e2 cl2 programs' b1 0] b1 by simp
    have b3: "db b3 = db b2" and rows_s': "stats' = select_rows e2 (db b2) Ic_program_stats True ?rid ?rtab"
      using enter_table_rows [OF B3] by simp_all
    have all_s: "\<forall>s\<in>set stats'. stays_unmatched e2 cl2 s"
    proof
      fix s assume "s \<in> set stats'"
      then have "s \<in> set (db b2 Ic_program_stats) \<and> selected Ic_program_stats True ?rid ?rtab s"
        unfolding rows_s' by (rule select_rows_subset)
      then have "s \<in> set (db w1 Ic_program_stats)" "selected Ic_program_stats True ?rid ?rtab s"
        by (simp_all add: b2_frame)
      from unmatched_s [OF this] show "stays_unmatched e2 cl2 s"
        by (simp add: same_env cl2)
    qed
    from filtered_loop_noop [OF all_s, of Ic_program_stats b3 0] B4
    have m2: "m2 = 0" and b4: "db b4 = db b3" by simp_all
    have b5: "db b5 = db b4" and rows_c': "cases' = select_rows e2 (db b4) Cases True ?rid ?rtab"
      using enter_table_rows [OF B5] by simp_all
    have b4_cases: "db b4 Cases = db w1 Cases"
      by (simp add: b4 b3 b2_frame)
    have all_c: "\<forall>s\<in>set cases'. stays_unmatched e2 cl2 s"
    proof
      fix s assume "s \<in> set cases'"
      then have "s \<in> set (db b4 Cases) \<and> selected Cases True ?rid ?rtab s"
        unfolding rows_c' by (rule select_rows_subset)
      then have "s \<in> set (db w1 Cases)" "selected Cases True ?rid ?rtab s"
        by (simp_all add: b4_cases)
      from unmatched_c [OF this] show "stays_unmatched e2 cl2 s"
        by (simp add: same_env cl2)
    qed
    from filtered_loop_noop [OF all_c, of Cases b5 0] B6
    have m3: "m3 = 0" by simp
    show ?thesis by (simp add: R1 R2 R3 m1 m2 m3)
  qed
qed




text \<open>
  Claim C7, as stated: the second of two runs in a row on \<open>rerun_store\<close> reports one
  updated primary row, the row \<open>Law\<close> that no catalog entry matches and whose category
  is written again.
\<close>

theorem rerun_updates_counterexample:
  "fst first_run =
     Returns \<lparr>status = ''ok'', programs_updated = 1, stats_updated = 1, cases_updated = 1,
              res_last_processed_id = None, res_last_processed_table = None\<rparr> \<and>
   fst second_run =
     Returns \<lparr>status = ''ok'', programs_updated = 1, stats_updated = 0, cases_updated = 0,
              res_last_processed_id = None, res_last_processed_table = None\<rparr>"
  by code_simp

theorem rerun_updates_witness:
  "(\<exists>r1. first_run = (Returns r1, snd first_run) \<and> status r1 = ''ok'') \<and>
   (\<exists>r2. second_run = (Returns r2, snd second_run) \<and>
      stats_updated r2 = 0 \<and> cases_updated r2 = 0 \<and>
      (status r2 = ''ok'' \<longrightarrow>
         programs_updated r2 =
           length (filter (\<lambda>p. \<not> update_raises (quiet_env (Data (Some one_entry_catalog)))
                                   Programs (row_id p))
                     (select_rows (quiet_env (Data (Some one_entry_catalog)))
                        (db (snd first_run)) Programs True None None))))"
proof -
  let ?e = "quiet_env (Data (Some one_entry_catalog))"
  let ?r1 = "\<lparr>status = ''ok'', programs_updated = 1, stats_updated = 1, cases_updated = 1,
              res_last_processed_id = None, res_last_processed_table = None\<rparr>"
  let ?r2 = "\<lparr>status = ''ok'', programs_updated = 1, stats_updated = 0, cases_updated = 0,
              res_last_processed_id = None, res_last_processed_table = None\<rparr>"
  have f1: "fst first_run = Returns ?r1" by code_simp
  have f2: "fst second_run = Returns ?r2" by code_simp
  have run1: "run_pipeline ?e None None True rerun_store idle_state = (Returns ?r1, snd first_run)"
    using f1 by (simp add: first_run_def prod_eq_iff)
  have run2: "run_pipeline ?e None None True (db (snd first_run)) idle_state
                = (Returns ?r2, snd second_run)"
    using f2 by (simp add: second_run_def prod_eq_iff)
  have ok1: "status ?r1 = ''ok''" by simp
  have reads: "\<forall>t. \<not> select_raises ?e t" by (simp add: quiet_env_def)
  have writes: "\<forall>t i. \<not> update_raises ?e t i" by (simp add: quiet_env_def)
  from rerun_updates [OF run1 ok1 reads writes refl refl refl run2]
  have c: "stats_updated ?r2 = 0 \<and> cases_updated ?r2 = 0 \<and>
      (status ?r2 = ''ok'' \<longrightarrow>
         programs_updated ?r2 =
           length (filter (\<lambda>p. \<not> update_raises ?e Programs (row_id p))
                     (select_rows ?e (db (snd first_run)) Programs True None None)))" .
  have a: "first_run = (Returns ?r1, snd first_run)" using run1 by (simp add: first_run_def)
  have b: "second_run = (Returns ?r2, snd second_run)" using run2 by (simp add: second_run_def)
  from a ok1 have A: "\<exists>r1. first_run = (Returns r1, snd first_run) \<and> status r1 = ''ok''"
    by (intro exI [where x = ?r1] conjI)
  from b c have B: "\<exists>r2. second_run = (Returns r2, snd second_run) \<and>
      stats_updated r2 = 0 \<and> cases_updated r2 = 0 \<and>
      (status r2 = ''ok'' \<longrightarrow>
         programs_updated r2 =
           length (filter (\<lambda>p. \<not> update_raises ?e Programs (row_id p))
                     (select_rows ?e (db (snd first_run)) Programs True None None)))"
    by (intro exI [where x = ?r2] conjI) simp_all
  from A B show ?thesis by (rule conjI)
qed

section \<open>Properties of the checkpoint\<close>

text \<open>
  Claim C6. The two chains of the recommendation are independent: the table is the first
  one with an unmatched row, the id the first truthy last-matched id of any table. With
  \<open>programs\<close> fully matched up to id 10 and \<open>ic_program_stats\<close> matched up to id 5
  with row 6 unmatched, the recommendation is the table \<open>ic_program_stats\<close> with the id
  10 of \<open>programs\<close>, not the last-matched id 5 of that table; a run resumed there
  selects no statistic row and leaves row 6 out.
\<close>

theorem recommendation_mixes_tables:
  "recommendation (checkpoint_of (\<lambda>t. False)
      (tables [named_row 10 ''Computer Science'' (Some 7)]
              [named_row 5 ''Computer Science'' (Some 7), named_row 6 ''Computing'' None]
              []))
   = (Some ''ic_program_stats'', Some 10) \<and>
   entry_get ck_last_processed_id (checkpoint_of (\<lambda>t. False)
      (tables [named_row 10 ''Computer Science'' (Some 7)]
              [named_row 5 ''Computer Science'' (Some 7), named_row 6 ''Computing'' None]
              []) Ic_program_stats) = Some 5 \<and>
   select_rows (quiet_env (Data (Some one_entry_catalog)))
      (tables [named_row 10 ''Computer Science'' (Some 7)]
              [named_row 5 ''Computer Science'' (Some 7), named_row 6 ''Computing'' None]
              [])
      Ic_program_stats True (Some 10) (Some ''ic_program_stats'') = []"
  by code_simp


section \<open>Properties of the lock\<close>

lemma wedged_exec: "wedged s \<Longrightarrow> wedged (exec s a) \<and> shared (exec s a) = shared s"
proof (cases a)
  case Worker_runs
  assume "wedged s"
  then show ?thesis
    unfolding Worker_runs by (auto simp: wedged_def worker_step_def)
next
  case (Caller_calls c)
  assume "wedged s"
  then show ?thesis
    unfolding Caller_calls by (auto simp: wedged_def)
next
  case Caller_runs
  assume "wedged s"
  then show ?thesis
    unfolding Caller_runs
    by (cases "caller_place s") (auto simp: wedged_def caller_step_def)
qed

text \<open>
  Claim C10. The pause wait and the inner \<open>with\<close> of the stop branch are inside the
  outer \<open>with _state_lock:\<close> block. Once the worker is there it owns the lock under
  every schedule of the two threads, for ever: no call of \<open>resume_pipeline\<close>,
  \<open>stop_pipeline\<close>, \<open>get_pipeline_status\<close> or any other control function gets the
  lock any more, the shared state never changes again (the pause flag stays set), and
  the worker never leaves the wait. The lock is held across the pause-polling wait.
\<close>

theorem wedged_forever:
  "wedged s \<Longrightarrow>
   wedged (run_schedule schedule s) \<and> shared (run_schedule schedule s) = shared s \<and>
   lock_owner (run_schedule schedule s) = Some Worker"
proof (induction schedule arbitrary: s)
  case Nil
  then show ?case by (simp add: run_schedule_def wedged_def)
next
  case (Cons a schedule)
  from wedged_exec [OF Cons.prems, of a]
  have w: "wedged (exec s a)" and sh: "shared (exec s a) = shared s" by simp_all
  from Cons.IH [OF w] sh show ?case by (simp add: run_schedule_def)
qed


text \<open>
  After \<open>pause_pipeline\<close> between two rows the worker reaches the wait while a call of
  \<open>resume_pipeline\<close> comes in; whatever runs next, the caller still waits for the lock
  and the flag is still set.
\<close>

theorem wedged_forever_witness:
  "wedged (run_schedule [Worker_runs, Caller_calls Resume, Worker_runs, Worker_runs, Worker_runs]
             paused_between_rows) \<and>
   is_paused (shared (run_schedule [Caller_runs, Worker_runs, Caller_runs, Worker_runs]
      (run_schedule [Worker_runs, Caller_calls Resume, Worker_runs, Worker_runs, Worker_runs]
         paused_between_rows))) \<and>
   caller_place (run_schedule [Caller_runs, Worker_runs, Caller_runs, Worker_runs]
      (run_schedule [Worker_runs, Caller_calls Resume, Worker_runs, Worker_runs, Worker_runs]
         paused_between_rows)) = Caller_waits Resume \<and>
   lock_owner (run_schedule [Caller_runs, Worker_runs, Caller_runs, Worker_runs]
      (run_schedule [Worker_runs, Caller_calls Resume, Worker_runs, Worker_runs, Worker_runs]
         paused_between_rows)) = Some Worker"
proof -
  let ?s = "run_schedule [Worker_runs, Caller_calls Resume, Worker_runs, Worker_runs, Worker_runs]
             paused_between_rows"
  have w: "wedged ?s" by code_simp
  have p: "is_paused (shared ?s)" by code_simp
  have c: "caller_place (run_schedule [Caller_runs, Worker_runs, Caller_runs, Worker_runs] ?s)
             = Caller_waits Resume" by code_simp
  from wedged_forever [OF w, of "[Caller_runs, Worker_runs, Caller_runs, Worker_runs]"] w p c
  show ?thesis by simp
qed

text \<open>
  The link to the run: where \<open>loop_head\<close> gives \<open>None\<close>, three statements of the worker
  lead from the outer \<open>with\<close> into such a state.
\<close>

lemma loop_head_None_wedged:
  assumes "loop_head e t i ps = None"
    and "worker_place s = With_lock" "lock_owner s = None" "\<not> caller_holds (caller_place s)"
    and "shared s = controls_applied e t i ps"
  shows "wedged (run_schedule [Worker_runs, Worker_runs, Worker_runs] s)"
proof -
  from assms(1) have "should_stop (shared s) \<or> is_paused (shared s)"
    by (auto simp: loop_head_def Let_def assms(5) split: if_splits)
  with assms(2,3,4) show ?thesis
    by (auto simp: run_schedule_def worker_step_def wedged_def)
qed

end
